theory Spec2Isabelle
  imports
    Main
    "HOL-Library.Char_ord"
    "HOL-Library.List_Lexorder"
    "HOL-Library.Word"
begin

unbundle bit_operations_syntax

section \<open>Strings of the host language\<close>

text \<open>
  The program is TypeScript. Outside theme resolution its strings are modelled as HOL
  strings, that is as lists of code units below 256; \<open>of_char\<close> is \<open>charCodeAt\<close>. With \<open>Char_ord\<close> and
  \<open>List_Lexorder\<close> the order \<open><\<close> on strings is the lexicographic order on code
  units, which is what the \<open><\<close> of the source computes on two strings.

  \<open>trim\<close> removes the white space and line terminators of the language from both ends
  (in this range: TAB, LF, VT, FF, CR, SPACE, NBSP); \<open>toLowerCase\<close> maps the upper-case
  letters of this range (A-Z, and the Latin-1 letters 192-222 except the multiplication sign
  215) to their lower-case partners, 32 code units further.
\<close>

definition isWhiteSpace :: "char \<Rightarrow> bool" where
  "isWhiteSpace c = ((of_char c :: nat) \<in> {9, 10, 11, 12, 13, 32, 160})"

definition trim :: "string \<Rightarrow> string" where
  "trim s = rev (dropWhile isWhiteSpace (rev (dropWhile isWhiteSpace s)))"

definition lowerChar :: "char \<Rightarrow> char" where
  "lowerChar c =
     (let n = (of_char c :: nat)
      in if (65 \<le> n \<and> n \<le> 90) \<or> (192 \<le> n \<and> n \<le> 222 \<and> n \<noteq> 215)
         then char_of (n + 32) else c)"

definition toLowerCase :: "string \<Rightarrow> string" where
  "toLowerCase s = map lowerChar s"

definition startsWith :: "string \<Rightarrow> string \<Rightarrow> bool" where
  "startsWith s p = (take (length p) s = p)"

text \<open>\<open>s.includes(sep)\<close>: some suffix of \<open>s\<close> starts with \<open>sep\<close>.\<close>

fun includes_str :: "string \<Rightarrow> string \<Rightarrow> bool" where
  "includes_str [] sep = (sep = [])"
| "includes_str (c # cs) sep = (startsWith (c # cs) sep \<or> includes_str cs sep)"

text \<open>
  \<open>s.split(sep)\<close> for a separator that is not empty: the pieces between the occurrences of
  the separator, found from the left without overlap. \<open>splitFrom sep acc s\<close> carries the
  piece read so far, reversed.
\<close>

function splitFrom :: "string \<Rightarrow> string \<Rightarrow> string \<Rightarrow> string list" where
  "splitFrom sep acc s =
     (if s = [] then [rev acc]
      else if sep \<noteq> [] \<and> startsWith s sep
           then rev acc # splitFrom sep [] (drop (length sep) s)
           else splitFrom sep (hd s # acc) (tl s))"
  by pat_completeness auto
termination
  by (relation "measure (\<lambda>(sep, acc, s). length s)") auto

declare splitFrom.simps [simp del]

definition split_str :: "string \<Rightarrow> string \<Rightarrow> string list" where
  "split_str s sep = splitFrom sep [] s"

text \<open>
  Theme resolution reads the code units of its arguments one by one and its result depends
  on their values. There a string is the list of its UTF-16 code units, so that every
  string of the program is covered; \<open>unat\<close> is \<open>charCodeAt\<close>, \<open>units\<close> embeds
  the strings of the rest of the model, and \<open>trimUnits\<close> removes the white space and
  the line terminators of the language, all of them single code units.
\<close>

definition units :: "string \<Rightarrow> 16 word list" where
  "units s = map (\<lambda>c. of_nat (of_char c)) s"

definition isWhiteSpaceUnit :: "16 word \<Rightarrow> bool" where
  "isWhiteSpaceUnit c =
     (unat c \<in> {9, 10, 11, 12, 13, 32, 160, 5760, 8192, 8193, 8194, 8195, 8196, 8197, 8198,
                8199, 8200, 8201, 8202, 8232, 8233, 8239, 8287, 12288, 65279})"

definition trimUnits :: "16 word list \<Rightarrow> 16 word list" where
  "trimUnits s = rev (dropWhile isWhiteSpaceUnit (rev (dropWhile isWhiteSpaceUnit s)))"

text \<open>Template literals print a number in decimal.\<close>

function showNat :: "nat \<Rightarrow> string" where
  "showNat n =
     (if n < 10 then [char_of (48 + n)]
      else showNat (n div 10) @ [char_of (48 + n mod 10)])"
  by pat_completeness auto
termination
  by (relation "measure (\<lambda>n. n)") auto

declare showNat.simps [simp del]

definition showInt :: "int \<Rightarrow> string" where
  "showInt i = (if i < 0 then CHR ''-'' # showNat (nat (- i)) else showNat (nat i))"

section \<open>Record model\<close>

text \<open>
  \<open>BillData\<close> and \<open>PackingStatus\<close> are declared in \<open>types.ts\<close>; the fields are the ones
  \<open>createBill\<close> fills and the table of the setup SQL lists. Optional fields
  (\<open>colorTheme\<close>, \<open>packedAt\<close>) are options; numbers that hold counts and epoch
  milliseconds are integers.
\<close>

datatype PackingStatus = PENDING | PACKED

record BillData =
  bill_id :: string
  imageUrl :: string
  customerName :: string
  address :: string
  invoiceNo :: string
  billDate :: string
  status :: PackingStatus
  isDelivery :: bool
  hasCRN :: bool
  isEditedBill :: bool
  isAdditionalBill :: bool
  boxCount :: int
  description :: string
  colorTheme :: "string option"
  entryDate :: string
  createdAt :: int
  updatedAt :: int
  packedAt :: "int option"

subsection \<open>Colour palette and theme resolution (storageService: getThemeStyles)\<close>

record ThemeStyle =
  name :: string
  bg :: string
  border :: string
  text_cls :: string
  ring :: string

definition COLOR_PALETTE :: "ThemeStyle list" where
  "COLOR_PALETTE =
    [\<lparr>name = ''slate'', bg = ''bg-slate-50'', border = ''border-slate-200'',
       text_cls = ''text-slate-900'', ring = ''ring-slate-500''\<rparr>,
     \<lparr>name = ''red'', bg = ''bg-red-50'', border = ''border-red-200'',
       text_cls = ''text-red-900'', ring = ''ring-red-500''\<rparr>,
     \<lparr>name = ''orange'', bg = ''bg-orange-50'', border = ''border-orange-200'',
       text_cls = ''text-orange-900'', ring = ''ring-orange-500''\<rparr>,
     \<lparr>name = ''amber'', bg = ''bg-amber-50'', border = ''border-amber-200'',
       text_cls = ''text-amber-900'', ring = ''ring-amber-500''\<rparr>,
     \<lparr>name = ''green'', bg = ''bg-emerald-50'', border = ''border-emerald-200'',
       text_cls = ''text-emerald-900'', ring = ''ring-emerald-500''\<rparr>,
     \<lparr>name = ''teal'', bg = ''bg-teal-50'', border = ''border-teal-200'',
       text_cls = ''text-teal-900'', ring = ''ring-teal-500''\<rparr>,
     \<lparr>name = ''blue'', bg = ''bg-blue-50'', border = ''border-blue-200'',
       text_cls = ''text-blue-900'', ring = ''ring-blue-500''\<rparr>,
     \<lparr>name = ''indigo'', bg = ''bg-indigo-50'', border = ''border-indigo-200'',
       text_cls = ''text-indigo-900'', ring = ''ring-indigo-500''\<rparr>,
     \<lparr>name = ''purple'', bg = ''bg-purple-50'', border = ''border-purple-200'',
       text_cls = ''text-purple-900'', ring = ''ring-purple-500''\<rparr>,
     \<lparr>name = ''pink'', bg = ''bg-pink-50'', border = ''border-pink-200'',
       text_cls = ''text-pink-900'', ring = ''ring-pink-500''\<rparr>]"

text \<open>
  \<open>hash << 5\<close> converts its left operand to a signed 32-bit integer and shifts that;
  the subtraction and the addition around it are the arithmetic of numbers, which is exact
  on integers below \<open>2 ^ 53\<close> in absolute value. One step moves the hash by less than
  \<open>2 ^ 32\<close> (lemma \<open>hashCode_bound\<close>), so the integers of the model are the numbers
  of the program for every description shorter than \<open>2 ^ 21\<close> code units.
\<close>

definition shiftLeft5 :: "int \<Rightarrow> int" where
  "shiftLeft5 h = sint (push_bit 5 (word_of_int h :: 32 word))"

definition hashStep :: "int \<Rightarrow> 16 word \<Rightarrow> int" where
  "hashStep hash c = uint c + (shiftLeft5 hash - hash)"

definition hashCode :: "16 word list \<Rightarrow> int" where
  "hashCode s = foldl hashStep 0 s"

definition getThemeStyles ::
  "16 word list option \<Rightarrow> 16 word list option \<Rightarrow> ThemeStyle" where
  "getThemeStyles colorName desc =
     (case (case colorName of
              None \<Rightarrow> None
            | Some cn \<Rightarrow>
                if cn \<noteq> [] then find (\<lambda>c. units (name c) = cn) COLOR_PALETTE else None) of
        Some found \<Rightarrow> found
      | None \<Rightarrow>
          (case desc of
             Some d \<Rightarrow>
               if d \<noteq> [] \<and> length (trimUnits d) > 0
               then COLOR_PALETTE ! (nat \<bar>hashCode d\<bar> mod length COLOR_PALETTE)
               else COLOR_PALETTE ! 0
           | None \<Rightarrow> COLOR_PALETTE ! 0))"

subsection \<open>Sorting with a comparator\<close>

text \<open>
  \<open>Array.prototype.sort\<close> with a comparator is a stable sort: an element goes before
  another exactly when the comparator says so, and elements the comparator does not separate
  keep their order. Insertion from the right end computes that list.
\<close>

fun insert_cmp :: "('a \<Rightarrow> 'a \<Rightarrow> int) \<Rightarrow> 'a \<Rightarrow> 'a list \<Rightarrow> 'a list" where
  "insert_cmp cmp x [] = [x]"
| "insert_cmp cmp x (y # ys) =
     (if cmp x y \<le> 0 then x # y # ys else y # insert_cmp cmp x ys)"

definition sort_cmp :: "('a \<Rightarrow> 'a \<Rightarrow> int) \<Rightarrow> 'a list \<Rightarrow> 'a list" where
  "sort_cmp cmp xs = foldr (insert_cmp cmp) xs []"

subsection \<open>The views of the store (App: todayNewBills, backlogBills)\<close>

text \<open>
  \<open>localeCompare\<close> is the collation of the host; it is a parameter of the backlog view.
\<close>

definition todayNewBills :: "BillData list \<Rightarrow> string \<Rightarrow> BillData list" where
  "todayNewBills allBills currentDate =
     sort_cmp (\<lambda>a b. createdAt b - createdAt a)
       (filter (\<lambda>b. entryDate b = currentDate) allBills)"

definition backlogBills ::
  "(string \<Rightarrow> string \<Rightarrow> int) \<Rightarrow> BillData list \<Rightarrow> string \<Rightarrow> BillData list" where
  "backlogBills localeCompare allBills currentDate =
     sort_cmp (\<lambda>a b. localeCompare (entryDate a) (entryDate b))
       (filter (\<lambda>b. status b = PENDING \<and> entryDate b < currentDate) allBills)"

section \<open>Remote gateway (storageService)\<close>

text \<open>
  The backend is a bucket of stored objects and a table of rows. \<open>requests\<close> lists the
  calls the client has issued, oldest first; \<open>connected\<close> says that the module-level
  client handle is set.
\<close>

datatype Request =
    ReqRemove string
  | ReqUpload string
  | ReqUpsert BillData
  | ReqSelect string
  | ReqDelete string

record Supabase =
  connected :: bool
  objects :: "string set"
  rows :: "BillData list"
  requests :: "Request list"

text \<open>
  What the backend and the host answer is not decided by the program: a \<open>Backend\<close> holds
  the answers. A \<open>remove\<close> succeeds, returns an error (which the callers ignore or log)
  or throws; an upload returns an error with its message or the data of the stored object,
  whose \<open>path\<close> may be missing; the upsert, the select and the delete return an error or
  none. \<open>decodeURIComponent\<close> throws on malformed input: \<open>None\<close>.
  \<open>atobMessage\<close> is the message of the exception that \<open>atob\<close> throws.
\<close>

datatype RemoveReply = RemoveOk | RemoveError | RemoveThrows

datatype UploadReply = UploadError string | UploadData "string option"

record Backend =
  removeReply :: "string \<Rightarrow> RemoveReply"
  uploadReply :: "string \<Rightarrow> UploadReply"
  getPublicUrl :: "string \<Rightarrow> string"
  upsertError :: "BillData \<Rightarrow> string option"
  selectError :: "string \<Rightarrow> bool"
  deleteError :: "string \<Rightarrow> bool"
  decodeURIComponent :: "string \<Rightarrow> string option"
  atobMessage :: string
  uploadNow :: int

datatype SaveError =
    NotConnected
  | ImageUploadFailed string
  | DatabaseSaveFailed string
  | RemoveFailed

text \<open>
  \<open>atob\<close> decodes base64 the forgiving way: ASCII white space is dropped; one or two
  padding signs at the end of a string of a length divisible by four are dropped; what is
  left must not have a length of one more than a multiple of four and must consist of
  characters of the alphabet; every four of them give three bytes, a rest of three gives
  two bytes and a rest of two gives one. \<open>None\<close>: the call throws.
\<close>

definition isAsciiWhitespace :: "char \<Rightarrow> bool" where
  "isAsciiWhitespace c = ((of_char c :: nat) \<in> {9, 10, 12, 13, 32})"

definition isBase64Char :: "char \<Rightarrow> bool" where
  "isBase64Char c =
     (let n = (of_char c :: nat)
      in (65 \<le> n \<and> n \<le> 90) \<or> (97 \<le> n \<and> n \<le> 122) \<or> (48 \<le> n \<and> n \<le> 57)
         \<or> n = 43 \<or> n = 47)"

definition base64Value :: "char \<Rightarrow> nat" where
  "base64Value c =
     (let n = (of_char c :: nat)
      in if 65 \<le> n \<and> n \<le> 90 then n - 65
         else if 97 \<le> n \<and> n \<le> 122 then n - 71
         else if 48 \<le> n \<and> n \<le> 57 then n + 4
         else if n = 43 then 62
         else 63)"

fun decodeSextets :: "nat list \<Rightarrow> string" where
  "decodeSextets (a # b # c # d # rest) =
     char_of (a * 4 + b div 16) # char_of ((b mod 16) * 16 + c div 4)
       # char_of ((c mod 4) * 64 + d) # decodeSextets rest"
| "decodeSextets [a, b, c] = [char_of (a * 4 + b div 16), char_of ((b mod 16) * 16 + c div 4)]"
| "decodeSextets [a, b] = [char_of (a * 4 + b div 16)]"
| "decodeSextets [a] = []"
| "decodeSextets [] = []"

definition stripPadding :: "string \<Rightarrow> string" where
  "stripPadding s =
     (if length s mod 4 = 0 \<and> s \<noteq> [] \<and> last s = CHR ''=''
      then (if butlast s \<noteq> [] \<and> last (butlast s) = CHR ''=''
            then butlast (butlast s) else butlast s)
      else s)"

definition atob :: "string \<Rightarrow> string option" where
  "atob s =
     (let payload = stripPadding (filter (\<lambda>c. \<not> isAsciiWhitespace c) s)
      in if length payload mod 4 = 1 then None
         else if \<not> list_all isBase64Char payload then None
         else Some (decodeSextets (map base64Value payload)))"

text \<open>
  \<open>base64ToBlob\<close> hands the part after the first comma to \<open>atob\<close> and copies the
  bytes. Without a comma that part is \<open>undefined\<close>, which \<open>atob\<close> reads as the text
  of that name.
\<close>

definition base64ToBlob :: "string \<Rightarrow> string option" where
  "base64ToBlob s =
     (let parts = split_str s '',''
      in atob (if 1 < length parts then parts ! 1 else ''undefined''))"

definition BUCKET_NAME :: string where
  "BUCKET_NAME = ''receipts''"

definition bucketMarker :: string where
  "bucketMarker = ''/'' @ BUCKET_NAME @ ''/''"

definition issue :: "Request \<Rightarrow> Supabase \<Rightarrow> Supabase" where
  "issue r sb = sb\<lparr>requests := requests sb @ [r]\<rparr>"

definition messageOr :: "string \<Rightarrow> string \<Rightarrow> string" where
  "messageOr msg dflt = (if msg \<noteq> [] then msg else dflt)"

text \<open>An upsert replaces the row with the same id, or adds the row.\<close>

definition upsertRow :: "BillData \<Rightarrow> BillData list \<Rightarrow> BillData list" where
  "upsertRow b rs =
     (if bill_id b \<in> set (map bill_id rs)
      then map (\<lambda>r. if bill_id r = bill_id b then b else r) rs
      else rs @ [b])"

text \<open>
  The cleanup block of \<open>saveBillToSupabase\<close>: it runs before the upload, inside its own
  \<open>try\<close>, so that nothing it throws leaves the block.
\<close>

definition cleanupOldImage :: "Backend \<Rightarrow> Supabase \<Rightarrow> BillData \<Rightarrow> Supabase" where
  "cleanupOldImage be sb bill =
     (if imageUrl bill \<noteq> [] \<and> includes_str (imageUrl bill) bucketMarker
      then
        (let parts = split_str (imageUrl bill) bucketMarker
         in if length parts = 2
            then (case decodeURIComponent be (parts ! 1) of
                    None \<Rightarrow> sb
                  | Some oldPath \<Rightarrow>
                      (let sb1 = issue (ReqRemove oldPath) sb
                       in case removeReply be oldPath of
                            RemoveOk \<Rightarrow> sb1\<lparr>objects := objects sb1 - {oldPath}\<rparr>
                          | RemoveError \<Rightarrow> sb1
                          | RemoveThrows \<Rightarrow> sb1))
            else sb)
      else sb)"

text \<open>Step 2 of \<open>saveBillToSupabase\<close>: the upsert, and the rollback of the upload.\<close>

definition upsertBill ::
  "Backend \<Rightarrow> Supabase \<Rightarrow> BillData \<Rightarrow> string option \<Rightarrow> Supabase \<times> (SaveError + unit)" where
  "upsertBill be sb finalBill newUploadedPath =
     (let sb1 = issue (ReqUpsert finalBill) sb
      in case upsertError be finalBill of
           None \<Rightarrow> (sb1\<lparr>rows := upsertRow finalBill (rows sb1)\<rparr>, Inr ())
         | Some msg \<Rightarrow>
             (case newUploadedPath of
                None \<Rightarrow>
                  (sb1, Inl (DatabaseSaveFailed (messageOr msg ''Check console for details'')))
              | Some p \<Rightarrow>
                  (let sb2 = issue (ReqRemove p) sb1
                   in case removeReply be p of
                        RemoveThrows \<Rightarrow> (sb2, Inl RemoveFailed)
                      | RemoveError \<Rightarrow>
                          (sb2,
                           Inl (DatabaseSaveFailed (messageOr msg ''Check console for details'')))
                      | RemoveOk \<Rightarrow>
                          (sb2\<lparr>objects := objects sb2 - {p}\<rparr>,
                           Inl (DatabaseSaveFailed
                                  (messageOr msg ''Check console for details''))))))"

definition saveBillToSupabase ::
  "Backend \<Rightarrow> Supabase \<Rightarrow> BillData \<Rightarrow> string option \<Rightarrow> Supabase \<times> (SaveError + unit)" where
  "saveBillToSupabase be sb bill imageBase64 =
     (if \<not> connected sb then (sb, Inl NotConnected)
      else
        (case imageBase64 of
           None \<Rightarrow> upsertBill be sb bill None
         | Some img \<Rightarrow>
             if img \<noteq> [] \<and> startsWith img ''data:''
             then
               (let sb1 = cleanupOldImage be sb bill
                in case base64ToBlob img of
                     None \<Rightarrow>
                       (sb1, Inl (ImageUploadFailed (messageOr (atobMessage be) ''Unknown error'')))
                   | Some blob \<Rightarrow>
                       (let fileName = bill_id bill @ ''_'' @ showInt (uploadNow be) @ ''.jpg'';
                            sb2 = issue (ReqUpload fileName) sb1
                        in case uploadReply be fileName of
                             UploadError msg \<Rightarrow>
                               (sb2, Inl (ImageUploadFailed (messageOr msg ''Unknown error'')))
                           | UploadData path \<Rightarrow>
                               (let sb3 = sb2\<lparr>objects := insert fileName (objects sb2)\<rparr>;
                                    newUploadedPath =
                                      (case path of
                                         None \<Rightarrow> None
                                       | Some p \<Rightarrow> if p \<noteq> [] then Some p else None);
                                    finalBill = bill\<lparr>imageUrl := getPublicUrl be fileName\<rparr>
                                in upsertBill be sb3 finalBill newUploadedPath)))
             else upsertBill be sb bill None))"

text \<open>
  \<open>deleteBillFromSupabase\<close> never throws: whatever is thrown inside ends the function.
\<close>

definition deleteRecord :: "Backend \<Rightarrow> Supabase \<Rightarrow> string \<Rightarrow> Supabase" where
  "deleteRecord be sb i =
     (let sb1 = issue (ReqDelete i) sb
      in if deleteError be i then sb1
         else sb1\<lparr>rows := filter (\<lambda>r. bill_id r \<noteq> i) (rows sb1)\<rparr>)"

definition deleteBillFromSupabase :: "Backend \<Rightarrow> Supabase \<Rightarrow> string \<Rightarrow> Supabase" where
  "deleteBillFromSupabase be sb i =
     (if \<not> connected sb then sb
      else
        (let sb1 = issue (ReqSelect i) sb;
             bill = (if selectError be i then None
                     else find (\<lambda>r. bill_id r = i) (rows sb1))
         in case bill of
              None \<Rightarrow> deleteRecord be sb1 i
            | Some b \<Rightarrow>
                if imageUrl b \<noteq> [] \<and> includes_str (imageUrl b) bucketMarker
                then
                  (let parts = split_str (imageUrl b) bucketMarker
                   in if length parts = 2
                      then (case decodeURIComponent be (parts ! 1) of
                              None \<Rightarrow> sb1
                            | Some filePath \<Rightarrow>
                                (let sb2 = issue (ReqRemove filePath) sb1
                                 in case removeReply be filePath of
                                      RemoveThrows \<Rightarrow> sb2
                                    | RemoveError \<Rightarrow> deleteRecord be sb2 i
                                    | RemoveOk \<Rightarrow>
                                        deleteRecord be
                                          (sb2\<lparr>objects := objects sb2 - {filePath}\<rparr>) i))
                      else deleteRecord be sb1 i)
                else deleteRecord be sb1 i))"

text \<open>
  \<open>Promise.all\<close> over the persists of a batch: every persist runs, and the whole
  resolves exactly when none has thrown. A persist without an image issues one request, so
  the requests go out in the order of the list.
\<close>

fun saveAll :: "Backend \<Rightarrow> Supabase \<Rightarrow> BillData list \<Rightarrow> Supabase \<times> bool" where
  "saveAll be sb [] = (sb, True)"
| "saveAll be sb (b # bs) =
     (case saveBillToSupabase be sb b None of
        (sb1, r) \<Rightarrow>
          (case saveAll be sb1 bs of
             (sb2, ok) \<Rightarrow> (sb2, (case r of Inl e \<Rightarrow> False | Inr u \<Rightarrow> ok))))"

text \<open>
  The deletes of a batch are started together: each call of \<open>deleteBillFromSupabase\<close>
  runs up to its first request, the select, before any answer arrives. A call is then
  waiting for the answer to its select, to its removal or to its delete, or it has ended.
  \<open>resumeDelete\<close> is the piece of \<open>deleteBillFromSupabase\<close> between one answer and
  the next request. The answers are taken in the order of their requests, so that the
  calls move on in rounds, and after three rounds every call has ended.
\<close>

datatype DeleteTask =
    AwaitSelect string
  | AwaitRemove string string
  | AwaitDelete string
  | Ended

definition startDelete :: "Supabase \<Rightarrow> string \<Rightarrow> Supabase \<times> DeleteTask" where
  "startDelete sb i =
     (if \<not> connected sb then (sb, Ended) else (issue (ReqSelect i) sb, AwaitSelect i))"

fun resumeDelete :: "Backend \<Rightarrow> Supabase \<Rightarrow> DeleteTask \<Rightarrow> Supabase \<times> DeleteTask" where
  "resumeDelete be sb Ended = (sb, Ended)"
| "resumeDelete be sb (AwaitSelect i) =
     (case (if selectError be i then None else find (\<lambda>r. bill_id r = i) (rows sb)) of
        None \<Rightarrow> (issue (ReqDelete i) sb, AwaitDelete i)
      | Some b \<Rightarrow>
          if imageUrl b \<noteq> [] \<and> includes_str (imageUrl b) bucketMarker
          then
            (let parts = split_str (imageUrl b) bucketMarker
             in if length parts = 2
                then (case decodeURIComponent be (parts ! 1) of
                        None \<Rightarrow> (sb, Ended)
                      | Some filePath \<Rightarrow> (issue (ReqRemove filePath) sb, AwaitRemove i filePath))
                else (issue (ReqDelete i) sb, AwaitDelete i))
          else (issue (ReqDelete i) sb, AwaitDelete i))"
| "resumeDelete be sb (AwaitRemove i filePath) =
     (case removeReply be filePath of
        RemoveThrows \<Rightarrow> (sb, Ended)
      | RemoveError \<Rightarrow> (issue (ReqDelete i) sb, AwaitDelete i)
      | RemoveOk \<Rightarrow> (issue (ReqDelete i) (sb\<lparr>objects := objects sb - {filePath}\<rparr>), AwaitDelete i))"
| "resumeDelete be sb (AwaitDelete i) =
     (if deleteError be i then (sb, Ended)
      else (sb\<lparr>rows := filter (\<lambda>r. bill_id r \<noteq> i) (rows sb)\<rparr>, Ended))"

fun startAll :: "Supabase \<Rightarrow> string list \<Rightarrow> Supabase \<times> DeleteTask list" where
  "startAll sb [] = (sb, [])"
| "startAll sb (i # is) =
     (case startDelete sb i of
        (sb1, t) \<Rightarrow> (case startAll sb1 is of (sb2, ts) \<Rightarrow> (sb2, t # ts)))"

fun resumeAll :: "Backend \<Rightarrow> Supabase \<Rightarrow> DeleteTask list \<Rightarrow> Supabase \<times> DeleteTask list" where
  "resumeAll be sb [] = (sb, [])"
| "resumeAll be sb (t # ts) =
     (case resumeDelete be sb t of
        (sb1, t1) \<Rightarrow> (case resumeAll be sb1 ts of (sb2, ts1) \<Rightarrow> (sb2, t1 # ts1)))"

definition deleteAll :: "Backend \<Rightarrow> Supabase \<Rightarrow> string list \<Rightarrow> Supabase" where
  "deleteAll be sb ids =
     (case startAll sb ids of
        (sb0, ts0) \<Rightarrow>
          (case resumeAll be sb0 ts0 of
             (sb1, ts1) \<Rightarrow>
               (case resumeAll be sb1 ts1 of
                  (sb2, ts2) \<Rightarrow> fst (resumeAll be sb2 ts2))))"

section \<open>The application state and its handlers (App)\<close>

record Extracted =
  x_customerName :: string
  x_address :: string
  x_invoiceNo :: string
  x_billDate :: string

record ManualData =
  m_boxCount :: int
  m_description :: string

record DuplicateAlert =
  existing :: BillData
  newData :: Extracted
  base64 :: "string option"

text \<open>
  The state hooks of the component that the handlers read or write. \<open>selectedIds\<close> is a
  \<open>Set\<close>, which keeps insertion order: a list, with \<open>has\<close> as membership.
\<close>

record AppState =
  allBills :: "BillData list"
  currentDate :: string
  loadingId :: "string option"
  processStatus :: string
  expandedId :: "string option"
  isSyncing :: bool
  isConfigured :: bool
  isSelectionMode :: bool
  selectedIds :: "string list"
  showGroupModal :: bool
  groupNameInput :: string
  groupColorInput :: string
  duplicateAlert :: "DuplicateAlert option"

text \<open>
  What the browser and the operator supply: the identifier \<open>generateId\<close> draws, the two
  readings of the clock in \<open>createBill\<close>, the reading of the clock in a bulk operation,
  and the answer to \<open>window.confirm\<close>.
\<close>

record Env =
  generateId :: string
  nowCreated :: int
  nowUpdated :: int
  dateNow :: int
  windowConfirm :: bool

text \<open>
  The collaborators of \<open>handleAddBill\<close>: reading the file (\<open>None\<close>: the reader
  fails), compressing the image, extracting the fields (\<open>None\<close>: the call throws).
\<close>

record Collaborators =
  readAsDataURL :: "string \<Rightarrow> string option"
  compressImage :: "string \<Rightarrow> string"
  extractBillDetails :: "string \<Rightarrow> Extracted option"

definition truthy :: "string option \<Rightarrow> bool" where
  "truthy s = (case s of None \<Rightarrow> False | Some v \<Rightarrow> v \<noteq> [])"

subsection \<open>Bulk operations\<close>

definition applyGroupSettings ::
  "Env \<Rightarrow> Backend \<Rightarrow> AppState \<Rightarrow> Supabase \<Rightarrow> AppState \<times> Supabase" where
  "applyGroupSettings env be st sb =
     (let now = dateNow env;
          updates = map (\<lambda>b. if bill_id b \<in> set (selectedIds st)
                               then b\<lparr>description := groupNameInput st,
                                      colorTheme := (if groupColorInput st \<noteq> []
                                                     then Some (groupColorInput st) else None),
                                      updatedAt := now\<rparr>
                               else b) (allBills st);
          st1 = st\<lparr>showGroupModal := False, allBills := updates\<rparr>
      in if isConfigured st
         then (case saveAll be sb (filter (\<lambda>b. bill_id b \<in> set (selectedIds st)) updates) of
                 (sb1, ok) \<Rightarrow>
                   if ok
                   then (st1\<lparr>isSyncing := False, isSelectionMode := False, selectedIds := []\<rparr>,
                         sb1)
                   else (st1\<lparr>isSyncing := True\<rparr>, sb1))
         else (st1\<lparr>isSelectionMode := False, selectedIds := []\<rparr>, sb))"

definition handlePackSelected ::
  "Env \<Rightarrow> Backend \<Rightarrow> AppState \<Rightarrow> Supabase \<Rightarrow> AppState \<times> Supabase" where
  "handlePackSelected env be st sb =
     (if selectedIds st = [] then (st, sb)
      else if windowConfirm env
      then
        (let now = dateNow env;
             updates = map (\<lambda>b. if bill_id b \<in> set (selectedIds st)
                                  then b\<lparr>status := PACKED, packedAt := Some now,
                                         updatedAt := now\<rparr>
                                  else b) (allBills st);
             st1 = st\<lparr>allBills := updates\<rparr>
         in if isConfigured st
            then (case saveAll be sb
                         (filter (\<lambda>b. bill_id b \<in> set (selectedIds st)) updates) of
                    (sb1, ok) \<Rightarrow>
                      if ok
                      then (st1\<lparr>isSyncing := False, isSelectionMode := False,
                                 selectedIds := []\<rparr>, sb1)
                      else (st1\<lparr>isSyncing := True\<rparr>, sb1))
            else (st1\<lparr>isSelectionMode := False, selectedIds := []\<rparr>, sb))
      else (st, sb))"

definition handleDeleteSelected ::
  "Env \<Rightarrow> Backend \<Rightarrow> AppState \<Rightarrow> Supabase \<Rightarrow> AppState \<times> Supabase" where
  "handleDeleteSelected env be st sb =
     (if selectedIds st = [] then (st, sb)
      else if windowConfirm env
      then
        (let sb1 = (if isConfigured st then deleteAll be sb (selectedIds st) else sb);
             st1 = (if isConfigured st then st\<lparr>isSyncing := False\<rparr> else st)
         in (st1\<lparr>allBills := filter (\<lambda>b. bill_id b \<notin> set (selectedIds st)) (allBills st1),
                 isSelectionMode := False, selectedIds := []\<rparr>, sb1))
      else (st, sb))"

subsection \<open>Creation\<close>

definition newBillOf ::
  "Env \<Rightarrow> AppState \<Rightarrow> Extracted \<Rightarrow> string option \<Rightarrow> ManualData option \<Rightarrow> BillData" where
  "newBillOf env st extracted base64Image manualData =
     \<lparr>bill_id = generateId env,
      imageUrl = (case base64Image of
                    None \<Rightarrow> []
                  | Some img \<Rightarrow> if \<not> isConfigured st then img else []),
      customerName = x_customerName extracted,
      address = x_address extracted,
      invoiceNo = x_invoiceNo extracted,
      billDate = x_billDate extracted,
      status = PENDING,
      isDelivery = False,
      hasCRN = False,
      isEditedBill = False,
      isAdditionalBill = False,
      boxCount = (case manualData of None \<Rightarrow> 0 | Some m \<Rightarrow> m_boxCount m),
      description = (case manualData of None \<Rightarrow> [] | Some m \<Rightarrow> m_description m),
      colorTheme = None,
      entryDate = currentDate st,
      createdAt = nowCreated env,
      updatedAt = nowUpdated env,
      packedAt = None\<rparr>"

definition createBill ::
  "Env \<Rightarrow> Backend \<Rightarrow> AppState \<Rightarrow> Supabase \<Rightarrow> Extracted \<Rightarrow> string option \<Rightarrow>
   ManualData option \<Rightarrow> AppState \<times> Supabase" where
  "createBill env be st sb extracted base64Image manualData =
     (let newBill = newBillOf env st extracted base64Image manualData;
          st1 = st\<lparr>allBills := newBill # allBills st\<rparr>
      in if \<not> isConfigured st
         then (st1\<lparr>expandedId := Some (bill_id newBill)\<rparr>, sb)
         else
           (let st2 = st1\<lparr>isSyncing := True,
                          processStatus := (if truthy base64Image
                                            then ''Uploading image to cloud...''
                                            else ''Syncing data...'')\<rparr>
            in case saveBillToSupabase be sb newBill base64Image of
                 (sb1, Inr u) \<Rightarrow>
                   (st2\<lparr>expandedId := Some (bill_id newBill), isSyncing := False\<rparr>, sb1)
               | (sb1, Inl e) \<Rightarrow>
                   (st2\<lparr>allBills := filter (\<lambda>b. bill_id b \<noteq> bill_id newBill) (allBills st2),
                        isSyncing := False\<rparr>, sb1)))"

text \<open>
  The duplicate check of \<open>handleAddBill\<close> (the block under \<open>DUPLICATE CHECK LOGIC\<close>):
  the bill it finds, if any.
\<close>

definition findDuplicate :: "BillData list \<Rightarrow> string \<Rightarrow> BillData option" where
  "findDuplicate bills candidate =
     (if candidate \<noteq> []
      then (let normalizedNew = toLowerCase (trim candidate)
            in if length normalizedNew > 0
               then find (\<lambda>b. invoiceNo b \<noteq> [] \<and>
                               toLowerCase (trim (invoiceNo b)) = normalizedNew) bills
               else None)
      else None)"

text \<open>
  The \<open>finally\<close> block of \<open>handleAddBill\<close> reads \<open>duplicateAlert\<close> as the handler saw
  it when it started.
\<close>

definition finishAdd :: "AppState \<Rightarrow> AppState \<times> Supabase \<Rightarrow> AppState \<times> Supabase" where
  "finishAdd st0 r =
     (if duplicateAlert st0 = None
      then (case r of (st1, sb1) \<Rightarrow> (st1\<lparr>loadingId := None, processStatus := []\<rparr>, sb1))
      else r)"

definition handleAddBill ::
  "Collaborators \<Rightarrow> Env \<Rightarrow> Backend \<Rightarrow> AppState \<Rightarrow> Supabase \<Rightarrow> string option \<Rightarrow>
   AppState \<times> Supabase" where
  "handleAddBill co env be st sb file =
     (let st0 = st\<lparr>loadingId := Some ''new'', processStatus := ''Compressing image...''\<rparr>
      in case file of
           None \<Rightarrow>
             finishAdd st
               (createBill env be (st0\<lparr>processStatus := ''Saving bill...''\<rparr>) sb
                  \<lparr>x_customerName = [], x_address = [], x_invoiceNo = [], x_billDate = []\<rparr>
                  None None)
         | Some f \<Rightarrow>
             (case readAsDataURL co f of
                None \<Rightarrow> finishAdd st (st0, sb)
              | Some rawBase64 \<Rightarrow>
                  (let base64Image = compressImage co rawBase64;
                       st1 = st0\<lparr>processStatus := ''Analyzing with AI...''\<rparr>
                   in case extractBillDetails co base64Image of
                        None \<Rightarrow> finishAdd st (st1, sb)
                      | Some extracted \<Rightarrow>
                          (let st2 = st1\<lparr>processStatus := ''Checking for duplicates...''\<rparr>
                           in case findDuplicate (allBills st) (x_invoiceNo extracted) of
                                Some duplicate \<Rightarrow>
                                  finishAdd st
                                    (st2\<lparr>loadingId := None, processStatus := [],
                                         duplicateAlert :=
                                           Some \<lparr>existing = duplicate, newData = extracted,
                                                 base64 = Some base64Image\<rparr>\<rparr>, sb)
                              | None \<Rightarrow>
                                  finishAdd st
                                    (createBill env be
                                       (st2\<lparr>processStatus := ''Saving bill...''\<rparr>) sb
                                       extracted (Some base64Image) None)))))"

definition handleManualQuickAdd ::
  "Env \<Rightarrow> Backend \<Rightarrow> AppState \<Rightarrow> Supabase \<Rightarrow> string \<Rightarrow> string \<Rightarrow> int \<Rightarrow> string \<Rightarrow>
   AppState \<times> Supabase" where
  "handleManualQuickAdd env be st sb custName invNo boxes descr =
     (case createBill env be
             (st\<lparr>loadingId := Some ''new'', processStatus := ''Quick add...''\<rparr>) sb
             \<lparr>x_customerName = custName, x_address = [], x_invoiceNo = invNo,
               x_billDate = currentDate st\<rparr>
             None (Some \<lparr>m_boxCount = boxes, m_description = descr\<rparr>) of
        (st1, sb1) \<Rightarrow> (st1\<lparr>loadingId := None, processStatus := []\<rparr>, sb1))"

definition handleConfirmDuplicate ::
  "Env \<Rightarrow> Backend \<Rightarrow> AppState \<Rightarrow> Supabase \<Rightarrow> AppState \<times> Supabase" where
  "handleConfirmDuplicate env be st sb =
     (case duplicateAlert st of
        None \<Rightarrow> (st, sb)
      | Some alert \<Rightarrow>
          (case createBill env be
                  (st\<lparr>duplicateAlert := None, loadingId := Some ''new_dup'',
                      processStatus := ''Creating duplicate entry...''\<rparr>) sb
                  (newData alert) (base64 alert) None of
             (st1, sb1) \<Rightarrow> (st1\<lparr>loadingId := None, processStatus := []\<rparr>, sb1)))"

subsection \<open>Edit and delete of one bill\<close>

definition handleUpdateBill ::
  "Backend \<Rightarrow> AppState \<Rightarrow> Supabase \<Rightarrow> BillData \<Rightarrow> AppState \<times> Supabase" where
  "handleUpdateBill be st sb updated =
     (st\<lparr>allBills := map (\<lambda>b. if bill_id b = bill_id updated then updated else b)
                          (allBills st)\<rparr>,
      if isConfigured st then fst (saveBillToSupabase be sb updated None) else sb)"

definition handleDeleteBill ::
  "Env \<Rightarrow> Backend \<Rightarrow> AppState \<Rightarrow> Supabase \<Rightarrow> string \<Rightarrow> AppState \<times> Supabase" where
  "handleDeleteBill env be st sb i =
     (if windowConfirm env
      then (st\<lparr>allBills := filter (\<lambda>b. bill_id b \<noteq> i) (allBills st),
               expandedId := (if expandedId st = Some i then None else expandedId st)\<rparr>,
            if isConfigured st then deleteBillFromSupabase be sb i else sb)
      else (st, sb))"

section \<open>Predicates of the specification and example data\<close>

text \<open>
  No exact match: no colour name is supplied, or the supplied name is not the name of a
  palette entry.
\<close>

definition noExactMatch :: "16 word list option \<Rightarrow> bool" where
  "noExactMatch colorName =
     (case colorName of
        None \<Rightarrow> True
      | Some cn \<Rightarrow> cn \<notin> set (map (\<lambda>c. units (name c)) COLOR_PALETTE))"

text \<open>The invariant of the record model on status and \<open>packedAt\<close>.\<close>

definition billInvariant :: "BillData \<Rightarrow> bool" where
  "billInvariant b = (case status b of PACKED \<Rightarrow> packedAt b \<noteq> None | PENDING \<Rightarrow> packedAt b = None)"

text \<open>A collation that agrees with the order of the code units.\<close>

definition codeUnitCompare :: "string \<Rightarrow> string \<Rightarrow> int" where
  "codeUnitCompare a b = (if a < b then - 1 else if a = b then 0 else 1)"

text \<open>Example data: a bill with the given id, invoice number, entry date, status and stamps.\<close>

definition exampleBill ::
  "string \<Rightarrow> string \<Rightarrow> string \<Rightarrow> PackingStatus \<Rightarrow> int \<Rightarrow> int option \<Rightarrow> BillData" where
  "exampleBill i invNo day st created packed =
     \<lparr>bill_id = i, imageUrl = [], customerName = [], address = [], invoiceNo = invNo,
      billDate = [], status = st, isDelivery = False, hasCRN = False, isEditedBill = False,
      isAdditionalBill = False, boxCount = 0, description = [], colorTheme = None,
      entryDate = day, createdAt = created, updatedAt = created, packedAt = packed\<rparr>"

definition exampleStore :: "BillData list" where
  "exampleStore =
     [exampleBill ''a'' ''INV-1'' ''2024-01-01'' PENDING 5 None,
      exampleBill ''b'' ''INV-2'' ''2024-01-03'' PENDING 6 None,
      exampleBill ''c'' ''INV-3'' ''2024-01-03'' PACKED 7 (Some 9),
      exampleBill ''d'' ''INV-4'' ''2023-12-31'' PENDING 8 None,
      exampleBill ''e'' ''INV-5'' ''2024-01-02'' PACKED 9 (Some 10)]"

text \<open>
  A backend that accepts every removal and answers the upload and the upsert as given (the
  paths of the examples hold no escape, so that decoding leaves them as they are); an
  application state over the example store, with two bills selected; a connected remote
  side that holds the stored image of one bill; and the image payload of the examples, a
  data URL whose base64 part decodes to the first six bytes of a JPEG file.
\<close>

definition exampleBackend :: "UploadReply \<Rightarrow> string option \<Rightarrow> Backend" where
  "exampleBackend upload upsertErr =
     \<lparr>removeReply = (\<lambda>p. RemoveOk),
      uploadReply = (\<lambda>f. upload),
      getPublicUrl = (\<lambda>f. ''https://cdn.example/public/receipts/'' @ f),
      upsertError = (\<lambda>b. upsertErr),
      selectError = (\<lambda>i. False),
      deleteError = (\<lambda>i. False),
      decodeURIComponent = (\<lambda>s. Some s),
      atobMessage = ''The string to be decoded is not correctly encoded.'',
      uploadNow = 7\<rparr>"

definition examplePayload :: string where
  "examplePayload = ''data:image/jpeg;base64,/9j/4AAQ''"

definition exampleEnv :: Env where
  "exampleEnv =
     \<lparr>generateId = ''n1'', nowCreated = 100, nowUpdated = 101, dateNow = 200,
      windowConfirm = True\<rparr>"

definition exampleState :: AppState where
  "exampleState =
     \<lparr>allBills = exampleStore, currentDate = ''2024-01-03'', loadingId = None,
      processStatus = [], expandedId = None, isSyncing = False, isConfigured = True,
      isSelectionMode = True, selectedIds = [''a'', ''b''], showGroupModal = False,
      groupNameInput = ''Route 7'', groupColorInput = [], duplicateAlert = None\<rparr>"

definition exampleRemote :: Supabase where
  "exampleRemote =
     \<lparr>connected = True, objects = {''old.jpg''}, rows = [], requests = []\<rparr>"

definition exampleCollaborators :: "string \<Rightarrow> Collaborators" where
  "exampleCollaborators invNo =
     \<lparr>readAsDataURL = (\<lambda>f. Some (''data:image/jpeg;base64,'' @ f)),
      compressImage = (\<lambda>s. s),
      extractBillDetails =
        (\<lambda>s. Some \<lparr>x_customerName = ''Grace'', x_address = [], x_invoiceNo = invNo,
                    x_billDate = ''2024-01-03''\<rparr>)\<rparr>"

definition exampleImageBill :: BillData where
  "exampleImageBill =
     (exampleBill ''c'' ''INV-3'' ''2024-01-03'' PACKED 7 (Some 9))
       \<lparr>imageUrl := ''https://cdn.example/public/receipts/old.jpg''\<rparr>"

text \<open>A store in which two bills carry the invoice number \<open>inv-001\<close> up to case and blanks.\<close>

definition duplicateStore :: "BillData list" where
  "duplicateStore =
     [exampleBill ''a'' ''INV-7'' ''2024-01-01'' PENDING 5 None,
      exampleBill ''b'' ''INV-001 '' ''2024-01-02'' PENDING 6 None,
      exampleBill ''c'' ''inv-001'' ''2024-01-03'' PENDING 7 None]"

section \<open>Theme resolution\<close>

lemma sint_range32: "- (2 ^ 31) \<le> sint (w :: 32 word) \<and> sint w < 2 ^ 31"
  using sint_ge [of w] sint_lt [of w] by simp

lemma shiftLeft5_range: "- (2 ^ 31) \<le> shiftLeft5 h \<and> shiftLeft5 h < 2 ^ 31"
  unfolding shiftLeft5_def by (rule sint_range32)

lemma uint_unit_range: "0 \<le> uint (c :: 16 word) \<and> uint c < 65536"
  using uint_lt2p [of c] by simp

lemma hashStep_bound: "\<bar>hashStep h c\<bar> \<le> \<bar>h\<bar> + 2 ^ 32"
proof -
  have a: "- 2147483648 \<le> shiftLeft5 h" "shiftLeft5 h < 2147483648"
    using shiftLeft5_range [of h] by simp_all
  have b: "0 \<le> uint c" "uint c < 65536"
    using uint_unit_range [of c] by simp_all
  have "\<bar>uint c + (shiftLeft5 h - h)\<bar> \<le> \<bar>h\<bar> + 4294967296"
    using a b by linarith
  then show ?thesis by (simp add: hashStep_def)
qed

lemma foldl_hashStep_bound: "\<bar>foldl hashStep h s\<bar> \<le> \<bar>h\<bar> + int (length s) * 2 ^ 32"
proof (induction s arbitrary: h)
  case Nil
  show ?case by simp
next
  case (Cons c s)
  have "\<bar>foldl hashStep (hashStep h c) s\<bar> \<le> \<bar>hashStep h c\<bar> + int (length s) * 2 ^ 32"
    by (rule Cons.IH)
  also have "\<dots> \<le> (\<bar>h\<bar> + 2 ^ 32) + int (length s) * 2 ^ 32"
    using hashStep_bound [of h c] by simp
  finally show ?case by (simp add: algebra_simps)
qed

lemma hashCode_bound: "\<bar>hashCode s\<bar> \<le> int (length s) * 2 ^ 32"
  using foldl_hashStep_bound [of 0 s] by (simp add: hashCode_def)

text \<open>The hash of a description shorter than \<open>2 ^ 21\<close> stays where numbers are exact.\<close>

lemma hashCode_exact: "length s < 2 ^ 21 \<Longrightarrow> \<bar>hashCode s\<bar> < 2 ^ 53"
proof -
  assume "length s < 2 ^ 21"
  then have "int (length s) < 2 ^ 21"
    by (metis of_nat_less_iff of_nat_numeral of_nat_power)
  then have "int (length s) * 2 ^ 32 < 2 ^ 21 * 2 ^ 32" by simp
  then show ?thesis using hashCode_bound [of s] by simp
qed

text \<open>
  The hash is a rolling hash. It starts at 0, and one more code unit is one more step: the
  hash so far is shifted left by five bits as a 32-bit integer, the hash so far is
  subtracted and the code unit is added. While the hash so far is below \<open>2 ^ 26\<close> the
  shift does not wrap, and the step is: 31 times the hash so far, plus the code unit.
\<close>

lemma hashCode_Nil: "hashCode [] = 0"
  by (simp add: hashCode_def)

lemma hashCode_snoc:
  "hashCode (s @ [c]) =
     uint c + (sint (push_bit 5 (word_of_int (hashCode s) :: 32 word)) - hashCode s)"
  by (simp add: hashCode_def hashStep_def shiftLeft5_def)

lemma shiftLeft5_small:
  assumes "- (2 ^ 26) \<le> h" and "h < 2 ^ 26"
  shows "sint (push_bit 5 (word_of_int h :: 32 word)) = 32 * h"
proof -
  have e: "push_bit 5 (word_of_int h :: 32 word) = word_of_int (32 * h)"
    by (simp add: push_bit_eq_mult)
  have st: "signed_take_bit 31 (32 * h) = 32 * h"
    by (rule signed_take_bit_int_eq_self) (use assms in simp_all)
  have "sint (word_of_int (32 * h) :: 32 word) = signed_take_bit (LENGTH(32) - 1) (32 * h)"
    by (rule sint_sbintrunc')
  also have "\<dots> = 32 * h" using st by simp
  finally show ?thesis unfolding e .
qed

lemma hashCode_weighted:
  assumes "- (2 ^ 26) \<le> hashCode s" and "hashCode s < 2 ^ 26"
  shows "hashCode (s @ [c]) = uint c + 31 * hashCode s"
  unfolding hashCode_snoc shiftLeft5_small [OF assms] by simp

text \<open>The code units of the strings of the model are theirs, one for one.\<close>

lemma unat_unit: "unat (of_nat (of_char c) :: 16 word) = of_char c"
proof -
  have "(of_char c :: nat) < 256" by (rule nat_of_char_less_256)
  then have "(of_char c :: nat) < 65536" by linarith
  then show ?thesis by (simp add: unat_of_nat)
qed

lemma map_unat_units: "map unat (units s) = map of_char s"
  by (simp add: units_def unat_unit)

lemma units_inj: "units a = units b \<Longrightarrow> a = b"
proof -
  assume "units a = units b"
  then have "map (of_char :: char \<Rightarrow> nat) a = map of_char b"
    using map_unat_units by metis
  moreover have "inj (of_char :: char \<Rightarrow> nat)"
    by (simp add: inj_on_def)
  ultimately show "a = b"
    by (simp add: inj_map_eq_map)
qed

lemma palette_length: "length COLOR_PALETTE = 10"
  by (simp add: COLOR_PALETTE_def)

lemma palette_names:
  "map name COLOR_PALETTE =
     [''slate'', ''red'', ''orange'', ''amber'', ''green'', ''teal'', ''blue'', ''indigo'',
      ''purple'', ''pink'']"
  by (simp add: COLOR_PALETTE_def)

lemma palette_names_distinct: "distinct (map (\<lambda>c. units (name c)) COLOR_PALETTE)"
proof -
  have "distinct (map name COLOR_PALETTE)" by (simp add: palette_names)
  moreover have "inj units" by (rule injI) (rule units_inj)
  ultimately have "distinct (map units (map name COLOR_PALETTE))"
    by (simp add: distinct_map inj_on_def)
  then show ?thesis by (simp add: comp_def)
qed

lemma palette_names_nonempty: "t \<in> set COLOR_PALETTE \<Longrightarrow> units (name t) \<noteq> []"
  by (auto simp add: COLOR_PALETTE_def units_def)

lemma find_in_set: "find P xs = Some x \<Longrightarrow> x \<in> set xs \<and> P x"
  by (induction xs) (auto split: if_splits)

lemma find_distinct_key:
  "distinct (map f xs) \<Longrightarrow> t \<in> set xs \<Longrightarrow> find (\<lambda>c. f c = f t) xs = Some t"
  by (induction xs) (auto simp: image_iff)

lemma find_none_key: "k \<notin> f ` set xs \<Longrightarrow> find (\<lambda>c. f c = k) xs = None"
  by (induction xs) auto

lemma palette_index_mem: "COLOR_PALETTE ! (n mod length COLOR_PALETTE) \<in> set COLOR_PALETTE"
  by (rule nth_mem) (simp add: palette_length)

lemma palette_first_mem: "COLOR_PALETTE ! 0 \<in> set COLOR_PALETTE"
  by (rule nth_mem) (simp add: palette_length)

text \<open>A description is blank exactly when each of its code units is white space.\<close>

lemma dropWhile_rev_Nil:
  "(dropWhile P (rev (dropWhile P xs)) = []) = (\<forall>x \<in> set xs. P x)"
proof (cases "\<forall>x \<in> set xs. P x")
  case True
  then show ?thesis by (auto dest: set_dropWhileD)
next
  case False
  then have ne: "dropWhile P xs \<noteq> []" by simp
  then have "\<not> P (hd (dropWhile P xs))" by (rule hd_dropWhile)
  moreover have "hd (dropWhile P xs) \<in> set (rev (dropWhile P xs))" using ne by simp
  ultimately have "\<not> (\<forall>x \<in> set (rev (dropWhile P xs)). P x)" by blast
  then have "dropWhile P (rev (dropWhile P xs)) \<noteq> []"
    by (simp only: dropWhile_eq_Nil_conv not_False_eq_True)
  with False show ?thesis by blast
qed

lemma trimUnits_blank: "(trimUnits d = []) = (\<forall>c \<in> set d. isWhiteSpaceUnit c)"
  unfolding trimUnits_def rev_is_Nil_conv by (rule dropWhile_rev_Nil)

lemma trimUnits_nonblank:
  "(trimUnits d \<noteq> []) =
     (\<exists>c \<in> set d. unat c \<notin> {9, 10, 11, 12, 13, 32, 160, 5760, 8192, 8193, 8194, 8195, 8196,
                              8197, 8198, 8199, 8200, 8201, 8202, 8232, 8233, 8239, 8287,
                              12288, 65279})"
  unfolding trimUnits_blank isWhiteSpaceUnit_def by blast

lemma getThemeStyles_mem: "getThemeStyles colorName desc \<in> set COLOR_PALETTE"
  unfolding getThemeStyles_def
  by (auto split: option.splits dest: find_in_set
      intro: palette_index_mem palette_first_mem)

lemma getThemeStyles_exact:
  assumes "t \<in> set COLOR_PALETTE"
  shows "getThemeStyles (Some (units (name t))) desc = t"
  using find_distinct_key [OF palette_names_distinct assms] palette_names_nonempty [OF assms]
  by (simp add: getThemeStyles_def)

lemma getThemeStyles_nomatch:
  assumes "noExactMatch colorName"
  shows "getThemeStyles colorName desc =
           (case desc of
              None \<Rightarrow> COLOR_PALETTE ! 0
            | Some d \<Rightarrow> if trimUnits d \<noteq> []
                        then COLOR_PALETTE ! (nat \<bar>hashCode d\<bar> mod 10)
                        else COLOR_PALETTE ! 0)"
proof -
  have nf: "(case colorName of
               None \<Rightarrow> None
             | Some cn \<Rightarrow>
                 if cn \<noteq> [] then find (\<lambda>c. units (name c) = cn) COLOR_PALETTE else None)
            = None"
    using assms find_none_key [of _ "\<lambda>c. units (name c)" COLOR_PALETTE]
    by (auto simp: noExactMatch_def split: option.splits)
  have tr: "\<And>d. trimUnits d \<noteq> [] \<Longrightarrow> d \<noteq> []"
    by (auto simp: trimUnits_def)
  show ?thesis
    unfolding getThemeStyles_def nf
    by (auto simp: palette_length split: option.splits dest: tr)
qed

text \<open>
  Claim C8. Theme resolution always returns an entry of the palette, which has ten entries
  with the names listed. A supplied colour name that is the name of a palette entry yields
  that entry, whatever the description. Without such a match, a description with a code
  unit that is not white space yields the entry at the index \<open>|hash| mod 10\<close>; without a
  match and without such a description the first entry of the palette is returned. The hash
  depends on nothing but the code units of the description, so equal descriptions yield
  equal entries, and it is this rolling hash: it is 0 for the empty string; for one more
  code unit the hash so far is shifted left by five bits as a signed 32-bit integer, the
  hash so far is subtracted and the code unit is added, which is 31 times the hash so far
  plus the code unit while the hash so far is below \<open>2 ^ 26\<close> in absolute value; and it
  stays below \<open>2 ^ 32\<close> times the length of the description.
\<close>

theorem getThemeStyles_priority:
  "getThemeStyles colorName desc \<in> set COLOR_PALETTE
   \<and> map name COLOR_PALETTE =
       [''slate'', ''red'', ''orange'', ''amber'', ''green'', ''teal'', ''blue'', ''indigo'',
        ''purple'', ''pink'']
   \<and> (\<forall>t \<in> set COLOR_PALETTE. getThemeStyles (Some (units (name t))) desc = t)
   \<and> (noExactMatch colorName \<longrightarrow>
        getThemeStyles colorName desc =
          (case desc of
             None \<Rightarrow> COLOR_PALETTE ! 0
           | Some d \<Rightarrow>
               if \<exists>c \<in> set d. unat c \<notin> {9, 10, 11, 12, 13, 32, 160, 5760, 8192, 8193, 8194,
                                           8195, 8196, 8197, 8198, 8199, 8200, 8201, 8202,
                                           8232, 8233, 8239, 8287, 12288, 65279}
               then COLOR_PALETTE ! (nat \<bar>hashCode d\<bar> mod 10)
               else COLOR_PALETTE ! 0))
   \<and> hashCode [] = 0
   \<and> hashCode (s @ [c]) =
       uint c + (sint (push_bit 5 (word_of_int (hashCode s) :: 32 word)) - hashCode s)
   \<and> (- (2 ^ 26) \<le> hashCode s \<and> hashCode s < 2 ^ 26 \<longrightarrow>
        hashCode (s @ [c]) = uint c + 31 * hashCode s)
   \<and> \<bar>hashCode s\<bar> \<le> int (length s) * 2 ^ 32"
proof -
  have "noExactMatch colorName \<longrightarrow>
        getThemeStyles colorName desc =
          (case desc of
             None \<Rightarrow> COLOR_PALETTE ! 0
           | Some d \<Rightarrow>
               if \<exists>c \<in> set d. unat c \<notin> {9, 10, 11, 12, 13, 32, 160, 5760, 8192, 8193, 8194,
                                           8195, 8196, 8197, 8198, 8199, 8200, 8201, 8202,
                                           8232, 8233, 8239, 8287, 12288, 65279}
               then COLOR_PALETTE ! (nat \<bar>hashCode d\<bar> mod 10)
               else COLOR_PALETTE ! 0)"
    using getThemeStyles_nomatch [of colorName desc]
    unfolding trimUnits_nonblank by blast
  moreover have "\<forall>t \<in> set COLOR_PALETTE. getThemeStyles (Some (units (name t))) desc = t"
    using getThemeStyles_exact by blast
  moreover have "- (2 ^ 26) \<le> hashCode s \<and> hashCode s < 2 ^ 26 \<longrightarrow>
        hashCode (s @ [c]) = uint c + 31 * hashCode s"
    using hashCode_weighted by blast
  ultimately show ?thesis
    using getThemeStyles_mem palette_names hashCode_Nil hashCode_snoc hashCode_bound
    by blast
qed

theorem getThemeStyles_priority_witness:
  "getThemeStyles (Some (units ''red'')) (Some (units ''Morning run'')) = COLOR_PALETTE ! 1
   \<and> hashCode (units ''Morning run'') = 3518735375
   \<and> getThemeStyles (Some (units ''mauve'')) (Some (units ''Morning run'')) = COLOR_PALETTE ! 5
   \<and> hashCode [20013, 25991] = 646394
   \<and> getThemeStyles None (Some [20013, 25991]) = COLOR_PALETTE ! 4
   \<and> hashCode (units ''Z'') = 90
   \<and> hashCode (units ''Z'' @ [20013]) = 20013 + 31 * 90
   \<and> getThemeStyles (Some (units ''mauve'')) (Some (units ''   '')) = COLOR_PALETTE ! 0
   \<and> getThemeStyles None None = COLOR_PALETTE ! 0
   \<and> COLOR_PALETTE ! 0 =
       \<lparr>name = ''slate'', bg = ''bg-slate-50'', border = ''border-slate-200'',
        text_cls = ''text-slate-900'', ring = ''ring-slate-500''\<rparr>"
proof -
  let ?ws = "{9, 10, 11, 12, 13, 32, 160, 5760, 8192, 8193, 8194, 8195, 8196, 8197, 8198, 8199,
              8200, 8201, 8202, 8232, 8233, 8239, 8287, 12288, 65279} :: nat set"
  have red: "COLOR_PALETTE ! 1 \<in> set COLOR_PALETTE" "name (COLOR_PALETTE ! 1) = ''red''"
    by (simp_all add: COLOR_PALETTE_def)
  have no: "noExactMatch (Some (units ''mauve''))" "noExactMatch None"
    by (simp_all add: noExactMatch_def COLOR_PALETTE_def units_def)
  have h1: "hashCode (units ''Morning run'') = 3518735375"
    by (simp add: hashCode_def hashStep_def shiftLeft5_def units_def)
  have h2: "hashCode [20013, 25991] = 646394"
    by (simp add: hashCode_def hashStep_def shiftLeft5_def)
  have h3: "hashCode (units ''Z'') = 90"
    by (simp add: hashCode_def hashStep_def shiftLeft5_def units_def)
  have b1: "\<exists>c \<in> set (units ''Morning run''). unat c \<notin> ?ws"
    by (simp add: units_def)
  have b2: "\<exists>c \<in> set [20013, 25991 :: 16 word]. unat c \<notin> ?ws"
    by simp
  have b3: "\<not> (\<exists>c \<in> set (units ''   ''). unat c \<notin> ?ws)"
    by (simp add: units_def)
  have "getThemeStyles (Some (units (name (COLOR_PALETTE ! 1)))) (Some (units ''Morning run''))
        = COLOR_PALETTE ! 1"
    using getThemeStyles_priority [of "Some (units ''red'')" "Some (units ''Morning run'')"]
      red(1) by blast
  then have "getThemeStyles (Some (units ''red'')) (Some (units ''Morning run''))
        = COLOR_PALETTE ! 1"
    unfolding red(2) .
  moreover have "getThemeStyles (Some (units ''mauve'')) (Some (units ''Morning run''))
        = COLOR_PALETTE ! 5"
    using getThemeStyles_priority [of "Some (units ''mauve'')" "Some (units ''Morning run'')"]
      no(1) h1 b1 by simp
  moreover have "getThemeStyles None (Some [20013, 25991]) = COLOR_PALETTE ! 4"
    using getThemeStyles_priority [of None "Some [20013, 25991]"] no(2) h2 b2 by simp
  moreover have "hashCode (units ''Z'' @ [20013]) = 20013 + 31 * 90"
    using getThemeStyles_priority [of None None "units ''Z''" 20013] h3 by simp
  moreover have "getThemeStyles (Some (units ''mauve'')) (Some (units ''   ''))
        = COLOR_PALETTE ! 0"
  proof -
    have "getThemeStyles (Some (units ''mauve'')) (Some (units ''   '')) =
        (case Some (units ''   '') of
           None \<Rightarrow> COLOR_PALETTE ! 0
         | Some d \<Rightarrow> if \<exists>c \<in> set d. unat c \<notin> ?ws
                     then COLOR_PALETTE ! (nat \<bar>hashCode d\<bar> mod 10)
                     else COLOR_PALETTE ! 0)"
      using getThemeStyles_priority [of "Some (units ''mauve'')" "Some (units ''   '')"]
        no(1) by blast
    then show ?thesis by (simp only: option.case if_not_P [OF b3])
  qed
  moreover have "getThemeStyles None None = COLOR_PALETTE ! 0"
    using getThemeStyles_priority [of None None] no(2) by simp
  moreover have "COLOR_PALETTE ! 0 =
       \<lparr>name = ''slate'', bg = ''bg-slate-50'', border = ''border-slate-200'',
        text_cls = ''text-slate-900'', ring = ''ring-slate-500''\<rparr>"
    by (simp add: COLOR_PALETTE_def)
  ultimately show ?thesis using h1 h2 h3 by blast
qed

section \<open>The views of the store\<close>

lemma set_insert_cmp: "set (insert_cmp cmp x ys) = insert x (set ys)"
  by (induction ys) auto

lemma set_sort_cmp: "set (sort_cmp cmp xs) = set xs"
  by (induction xs) (simp_all add: sort_cmp_def set_insert_cmp)

lemma length_insert_cmp: "length (insert_cmp cmp x ys) = Suc (length ys)"
  by (induction ys) auto

lemma length_sort_cmp: "length (sort_cmp cmp xs) = length xs"
  by (induction xs) (simp_all add: sort_cmp_def length_insert_cmp)

text \<open>
  A comparator that is total and transitive makes the result of the sort ordered: every
  element is at or before every later one.
\<close>

lemma sorted_insert_cmp:
  assumes total: "\<And>a b. cmp a b \<le> 0 \<or> cmp b a \<le> 0"
    and trans: "\<And>a b c. cmp a b \<le> 0 \<Longrightarrow> cmp b c \<le> 0 \<Longrightarrow> cmp a c \<le> 0"
    and sorted: "sorted_wrt (\<lambda>a b. cmp a b \<le> 0) ys"
  shows "sorted_wrt (\<lambda>a b. cmp a b \<le> 0) (insert_cmp cmp x ys)"
  using sorted
proof (induction ys)
  case Nil
  show ?case by simp
next
  case (Cons y ys)
  show ?case
  proof (cases "cmp x y \<le> 0")
    case True
    then have "\<forall>z \<in> set ys. cmp x z \<le> 0"
      using Cons.prems trans by auto
    with True Cons.prems show ?thesis by simp
  next
    case False
    then have "cmp y x \<le> 0" using total [of x y] by simp
    with False Cons show ?thesis by (simp add: set_insert_cmp)
  qed
qed

lemma sorted_sort_cmp:
  assumes total: "\<And>a b. cmp a b \<le> 0 \<or> cmp b a \<le> 0"
    and trans: "\<And>a b c. cmp a b \<le> 0 \<Longrightarrow> cmp b c \<le> 0 \<Longrightarrow> cmp a c \<le> 0"
  shows "sorted_wrt (\<lambda>a b. cmp a b \<le> 0) (sort_cmp cmp xs)"
proof (induction xs)
  case Nil
  show ?case by (simp add: sort_cmp_def)
next
  case (Cons x xs)
  have "sort_cmp cmp (x # xs) = insert_cmp cmp x (sort_cmp cmp xs)"
    by (simp add: sort_cmp_def)
  then show ?case using sorted_insert_cmp [OF total trans Cons.IH] by simp
qed

lemma set_todayNewBills:
  "set (todayNewBills bills d) = {b \<in> set bills. entryDate b = d}"
  by (simp add: todayNewBills_def set_sort_cmp)

lemma set_backlogBills:
  "set (backlogBills lc bills d) = {b \<in> set bills. status b = PENDING \<and> entryDate b < d}"
  by (simp add: backlogBills_def set_sort_cmp)

lemma sorted_todayNewBills:
  "sorted_wrt (\<lambda>a b. createdAt b \<le> createdAt a) (todayNewBills bills d)"
proof -
  have "sorted_wrt (\<lambda>a b. createdAt b - createdAt a \<le> 0) (todayNewBills bills d)"
    unfolding todayNewBills_def
    by (rule sorted_sort_cmp) auto
  then show ?thesis by simp
qed

lemma sorted_backlogBills:
  assumes "\<forall>a b. lc a b \<le> 0 \<or> lc b a \<le> 0"
    and "\<forall>a b c. lc a b \<le> 0 \<and> lc b c \<le> 0 \<longrightarrow> lc a c \<le> 0"
  shows "sorted_wrt (\<lambda>a b. lc (entryDate a) (entryDate b) \<le> 0) (backlogBills lc bills d)"
  unfolding backlogBills_def
proof (rule sorted_sort_cmp)
  show "\<And>a b. lc (entryDate a) (entryDate b) \<le> 0 \<or> lc (entryDate b) (entryDate a) \<le> 0"
    using assms(1) by blast
  show "\<And>a b c. lc (entryDate a) (entryDate b) \<le> 0 \<Longrightarrow> lc (entryDate b) (entryDate c) \<le> 0
          \<Longrightarrow> lc (entryDate a) (entryDate c) \<le> 0"
    using assms(2) by blast
qed

lemma codeUnitCompare_le: "(codeUnitCompare a b \<le> 0) = (a \<le> b)"
  by (auto simp: codeUnitCompare_def)

text \<open>
  Where the collation of the host agrees with the order of the code units, as it does on
  dates written \<open>YYYY-MM-DD\<close>, the backlog is in the order of its entry dates.
\<close>

lemma backlogBills_by_date:
  assumes "\<forall>a b. (lc a b \<le> 0) = (a \<le> b)"
  shows "sorted (map entryDate (backlogBills lc bills d))"
proof -
  have "sorted_wrt (\<lambda>a b. lc (entryDate a) (entryDate b) \<le> 0) (backlogBills lc bills d)"
    by (rule sorted_backlogBills) (use assms in auto)
  then have "sorted_wrt (\<lambda>a b. entryDate a \<le> entryDate b) (backlogBills lc bills d)"
    using assms by simp
  then show ?thesis by (simp add: sorted_map)
qed

text \<open>
  Claim C3. For every list of bills and every reference date the today view and the backlog
  view have no bill in common; together they hold exactly the PENDING bills dated on or
  before the reference date and the bills of any status dated on the reference date; the
  today view is in descending order of \<open>createdAt\<close>; and the backlog view is in
  ascending order of \<open>entryDate\<close> under the collation \<open>localeCompare\<close> of the host,
  which is taken to be total and transitive.
\<close>

theorem views_partition:
  assumes "\<forall>a b. lc a b \<le> 0 \<or> lc b a \<le> 0"
    and "\<forall>a b c. lc a b \<le> 0 \<and> lc b c \<le> 0 \<longrightarrow> lc a c \<le> 0"
  shows "set (todayNewBills bills d) \<inter> set (backlogBills lc bills d) = {}
    \<and> set (todayNewBills bills d) \<union> set (backlogBills lc bills d) =
        {b \<in> set bills. status b = PENDING \<and> entryDate b \<le> d}
        \<union> {b \<in> set bills. entryDate b = d}
    \<and> sorted_wrt (\<lambda>a b. createdAt b \<le> createdAt a) (todayNewBills bills d)
    \<and> sorted_wrt (\<lambda>a b. lc (entryDate a) (entryDate b) \<le> 0) (backlogBills lc bills d)"
proof -
  have "set (todayNewBills bills d) \<inter> set (backlogBills lc bills d) = {}"
    by (auto simp: set_todayNewBills set_backlogBills)
  moreover have "set (todayNewBills bills d) \<union> set (backlogBills lc bills d) =
        {b \<in> set bills. status b = PENDING \<and> entryDate b \<le> d}
        \<union> {b \<in> set bills. entryDate b = d}"
    by (auto simp: set_todayNewBills set_backlogBills)
  ultimately show ?thesis
    using sorted_todayNewBills sorted_backlogBills [OF assms] by blast
qed

theorem views_partition_witness:
  "todayNewBills exampleStore ''2024-01-03'' =
     [exampleBill ''c'' ''INV-3'' ''2024-01-03'' PACKED 7 (Some 9),
      exampleBill ''b'' ''INV-2'' ''2024-01-03'' PENDING 6 None]
   \<and> backlogBills codeUnitCompare exampleStore ''2024-01-03'' =
     [exampleBill ''d'' ''INV-4'' ''2023-12-31'' PENDING 8 None,
      exampleBill ''a'' ''INV-1'' ''2024-01-01'' PENDING 5 None]
   \<and> set (todayNewBills exampleStore ''2024-01-03'')
       \<inter> set (backlogBills codeUnitCompare exampleStore ''2024-01-03'') = {}
   \<and> set (todayNewBills exampleStore ''2024-01-03'')
       \<union> set (backlogBills codeUnitCompare exampleStore ''2024-01-03'') =
       {b \<in> set exampleStore. status b = PENDING \<and> entryDate b \<le> ''2024-01-03''}
       \<union> {b \<in> set exampleStore. entryDate b = ''2024-01-03''}
   \<and> sorted_wrt (\<lambda>a b. createdAt b \<le> createdAt a) (todayNewBills exampleStore ''2024-01-03'')
   \<and> sorted_wrt (\<lambda>a b. codeUnitCompare (entryDate a) (entryDate b) \<le> 0)
        (backlogBills codeUnitCompare exampleStore ''2024-01-03'')"
proof -
  have total: "\<forall>a b. codeUnitCompare a b \<le> 0 \<or> codeUnitCompare b a \<le> 0"
    by (auto simp: codeUnitCompare_le)
  have trans: "\<forall>a b c. codeUnitCompare a b \<le> 0 \<and> codeUnitCompare b c \<le> 0
                 \<longrightarrow> codeUnitCompare a c \<le> 0"
    by (auto simp: codeUnitCompare_le)
  have today: "todayNewBills exampleStore ''2024-01-03'' =
     [exampleBill ''c'' ''INV-3'' ''2024-01-03'' PACKED 7 (Some 9),
      exampleBill ''b'' ''INV-2'' ''2024-01-03'' PENDING 6 None]"
    by (simp add: todayNewBills_def exampleStore_def exampleBill_def sort_cmp_def)
  have backlog: "backlogBills codeUnitCompare exampleStore ''2024-01-03'' =
     [exampleBill ''d'' ''INV-4'' ''2023-12-31'' PENDING 8 None,
      exampleBill ''a'' ''INV-1'' ''2024-01-01'' PENDING 5 None]"
    by (simp add: backlogBills_def exampleStore_def exampleBill_def sort_cmp_def
        codeUnitCompare_def)
  show ?thesis
    using views_partition [OF total trans, of exampleStore "''2024-01-03''"] today backlog
    by blast
qed

section \<open>The persist operation\<close>

lemma requests_issue: "requests (issue r sb) = requests sb @ [r]"
  by (simp add: issue_def)

lemma objects_issue: "objects (issue r sb) = objects sb"
  by (simp add: issue_def)

lemma rows_issue: "rows (issue r sb) = rows sb"
  by (simp add: issue_def)

lemma cleanupOldImage_found:
  assumes "includes_str (imageUrl bill) bucketMarker"
    and "split_str (imageUrl bill) bucketMarker = [pre, enc]"
    and "decodeURIComponent be enc = Some oldPath"
  shows "requests (cleanupOldImage be sb bill) = requests sb @ [ReqRemove oldPath]"
    and "objects (cleanupOldImage be sb bill) =
           (if removeReply be oldPath = RemoveOk then objects sb - {oldPath} else objects sb)"
    and "rows (cleanupOldImage be sb bill) = rows sb"
proof -
  have ne: "imageUrl bill \<noteq> []"
    using assms(1) by (auto simp: bucketMarker_def BUCKET_NAME_def)
  show "requests (cleanupOldImage be sb bill) = requests sb @ [ReqRemove oldPath]"
    using assms ne
    by (simp add: cleanupOldImage_def Let_def requests_issue split: RemoveReply.splits)
  show "objects (cleanupOldImage be sb bill) =
           (if removeReply be oldPath = RemoveOk then objects sb - {oldPath} else objects sb)"
    using assms ne
    by (simp add: cleanupOldImage_def Let_def objects_issue split: RemoveReply.splits)
  show "rows (cleanupOldImage be sb bill) = rows sb"
    using assms ne
    by (simp add: cleanupOldImage_def Let_def rows_issue split: RemoveReply.splits)
qed



lemma upsertBill_requests_prefix:
  "take (Suc (length (requests sb))) (requests (fst (upsertBill be sb fb np)))
     = requests sb @ [ReqUpsert fb]"
  by (simp add: upsertBill_def Let_def requests_issue
      split: RemoveReply.splits option.splits)

lemma upsertBill_objects_sub:
  "objects (fst (upsertBill be sb fb np)) \<subseteq> objects sb"
  by (auto simp add: upsertBill_def Let_def objects_issue
      split: RemoveReply.splits option.splits)


lemma take_prefix_two:
  assumes "take n ys = xs @ a # b # rest"
  shows "take 2 (drop (length xs) ys) = [a, b]"
proof -
  have "ys = take n ys @ drop n ys" by simp
  then have "ys = xs @ (a # b # rest @ drop n ys)" using assms by simp
  then have "drop (length xs) ys = a # b # rest @ drop n ys"
    by (metis append_eq_conv_conj)
  then show ?thesis by simp
qed

lemma cleanup_first:
  assumes "connected sb" and "img \<noteq> []" and "startsWith img ''data:''"
    and "includes_str (imageUrl bill) bucketMarker"
    and "split_str (imageUrl bill) bucketMarker = [pre, enc]"
    and "decodeURIComponent be enc = Some oldPath"
    and "base64ToBlob img = Some blob"
    and "fileName = bill_id bill @ ''_'' @ showInt (uploadNow be) @ ''.jpg''"
  shows "take 2 (drop (length (requests sb))
                  (requests (fst (saveBillToSupabase be sb bill (Some img)))))
           = [ReqRemove oldPath, ReqUpload fileName]"
    and "removeReply be oldPath = RemoveOk \<Longrightarrow> oldPath \<noteq> fileName \<Longrightarrow>
           oldPath \<notin> objects (fst (saveBillToSupabase be sb bill (Some img)))"
proof -
  note cl = cleanupOldImage_found [OF assms(4-6), of sb]
  let ?sb1 = "cleanupOldImage be sb bill"
  let ?sb2 = "issue (ReqUpload fileName) ?sb1"
  have rq2: "requests ?sb2 = requests sb @ [ReqRemove oldPath, ReqUpload fileName]"
    by (simp add: requests_issue cl(1))
  show "take 2 (drop (length (requests sb))
                  (requests (fst (saveBillToSupabase be sb bill (Some img)))))
           = [ReqRemove oldPath, ReqUpload fileName]"
  proof (cases "uploadReply be fileName")
    case (UploadError m)
    then have "fst (saveBillToSupabase be sb bill (Some img)) = ?sb2"
      using assms(1-3,7,8) by (simp add: saveBillToSupabase_def Let_def)
    then show ?thesis by (simp add: rq2)
  next
    case (UploadData path)
    obtain np where "fst (saveBillToSupabase be sb bill (Some img)) =
        fst (upsertBill be (?sb2\<lparr>objects := insert fileName (objects ?sb2)\<rparr>)
               (bill\<lparr>imageUrl := getPublicUrl be fileName\<rparr>) np)"
      using assms(1-3,7,8) UploadData by (simp add: saveBillToSupabase_def Let_def)
    moreover have "requests (?sb2\<lparr>objects := insert fileName (objects ?sb2)\<rparr>)
        = requests sb @ [ReqRemove oldPath, ReqUpload fileName]"
      by (simp add: rq2)
    ultimately have "take (Suc (length (requests sb @ [ReqRemove oldPath, ReqUpload fileName])))
        (requests (fst (saveBillToSupabase be sb bill (Some img))))
        = (requests sb @ [ReqRemove oldPath, ReqUpload fileName])
           @ [ReqUpsert (bill\<lparr>imageUrl := getPublicUrl be fileName\<rparr>)]"
      using upsertBill_requests_prefix
        [of "?sb2\<lparr>objects := insert fileName (objects ?sb2)\<rparr>" be
            "bill\<lparr>imageUrl := getPublicUrl be fileName\<rparr>" np]
      by simp
    then show ?thesis
      using take_prefix_two
        [of _ "requests (fst (saveBillToSupabase be sb bill (Some img)))" "requests sb"
            "ReqRemove oldPath" "ReqUpload fileName"]
      by simp
  qed
  assume ok: "removeReply be oldPath = RemoveOk" and ne: "oldPath \<noteq> fileName"
  have o1: "oldPath \<notin> objects ?sb1" using cl(2) ok by simp
  show "oldPath \<notin> objects (fst (saveBillToSupabase be sb bill (Some img)))"
  proof (cases "uploadReply be fileName")
    case (UploadError m)
    then have "fst (saveBillToSupabase be sb bill (Some img)) = ?sb2"
      using assms(1-3,7,8) by (simp add: saveBillToSupabase_def Let_def)
    then show ?thesis using o1 by (simp add: objects_issue)
  next
    case (UploadData path)
    obtain np where "fst (saveBillToSupabase be sb bill (Some img)) =
        fst (upsertBill be (?sb2\<lparr>objects := insert fileName (objects ?sb2)\<rparr>)
               (bill\<lparr>imageUrl := getPublicUrl be fileName\<rparr>) np)"
      using assms(1-3,7,8) UploadData by (simp add: saveBillToSupabase_def Let_def)
    then have "objects (fst (saveBillToSupabase be sb bill (Some img)))
        \<subseteq> insert fileName (objects ?sb1)"
      using upsertBill_objects_sub
        [of be "?sb2\<lparr>objects := insert fileName (objects ?sb2)\<rparr>"]
      by (simp add: objects_issue)
    then show ?thesis using o1 ne by auto
  qed
qed

lemma saveBillToSupabase_no_blob:
  assumes "connected sb" and "img \<noteq> []" and "startsWith img ''data:''"
    and "base64ToBlob img = None"
  shows "saveBillToSupabase be sb bill (Some img) =
           (cleanupOldImage be sb bill,
            Inl (ImageUploadFailed (messageOr (atobMessage be) ''Unknown error'')))"
  using assms by (simp add: saveBillToSupabase_def Let_def)

lemma take_prefix_one:
  assumes "take 2 ys = [a, b]"
  shows "take 1 ys = [a]"
proof -
  have "take 1 (take 2 ys) = [a]" unfolding assms by simp
  then show ?thesis by (simp add: min_def)
qed



text \<open>
  Claim C5, as amended. The backend is connected and the persist is given an image payload,
  a string that starts with \<open>data:\<close>, for a bill that has a prior stored image: its
  \<open>imageUrl\<close> holds the bucket marker once, and what follows the marker decodes to the
  path \<open>oldPath\<close>. Then the removal of the prior image is the first request of the
  persist, before any upload and whatever the removal answers. When the payload converts to
  a blob, the upload of the new image is the second request. When it does not, the persist
  issues no other request and throws the upload failure, the removal already requested. And
  a removal that the backend carries out takes the prior image out of storage whatever the
  conversion, the upload and the upsert do afterwards, provided the new image is stored
  under another path.
\<close>

theorem cleanup_precedes_upload:
  assumes "connected sb" and "img \<noteq> []" and "startsWith img ''data:''"
    and "includes_str (imageUrl bill) bucketMarker"
    and "split_str (imageUrl bill) bucketMarker = [pre, enc]"
    and "decodeURIComponent be enc = Some oldPath"
    and "fileName = bill_id bill @ ''_'' @ showInt (uploadNow be) @ ''.jpg''"
  shows "take 1 (drop (length (requests sb))
                  (requests (fst (saveBillToSupabase be sb bill (Some img)))))
           = [ReqRemove oldPath]
    \<and> (base64ToBlob img \<noteq> None \<longrightarrow>
         take 2 (drop (length (requests sb))
                   (requests (fst (saveBillToSupabase be sb bill (Some img)))))
           = [ReqRemove oldPath, ReqUpload fileName])
    \<and> (base64ToBlob img = None \<longrightarrow>
         requests (fst (saveBillToSupabase be sb bill (Some img)))
           = requests sb @ [ReqRemove oldPath]
         \<and> snd (saveBillToSupabase be sb bill (Some img))
           = Inl (ImageUploadFailed (messageOr (atobMessage be) ''Unknown error'')))
    \<and> (removeReply be oldPath = RemoveOk \<and> oldPath \<noteq> fileName \<longrightarrow>
         oldPath \<notin> objects (fst (saveBillToSupabase be sb bill (Some img))))"
proof (cases "base64ToBlob img")
  case None
  note cl = cleanupOldImage_found [OF assms(4-6), of sb]
  have eq: "saveBillToSupabase be sb bill (Some img) =
           (cleanupOldImage be sb bill,
            Inl (ImageUploadFailed (messageOr (atobMessage be) ''Unknown error'')))"
    by (rule saveBillToSupabase_no_blob [OF assms(1-3) None])
  show ?thesis unfolding eq using None cl(1) cl(2) by simp
next
  case (Some blob)
  note cf = cleanup_first [OF assms(1-6) Some assms(7)]
  have "take 1 (drop (length (requests sb))
                  (requests (fst (saveBillToSupabase be sb bill (Some img)))))
           = [ReqRemove oldPath]"
    by (rule take_prefix_one [OF cf(1)])
  then show ?thesis using Some cf by simp
qed

theorem cleanup_precedes_upload_witness:
  "take 2 (drop (length (requests exampleRemote))
      (requests (fst (saveBillToSupabase (exampleBackend (UploadError ''quota'') None)
                        exampleRemote exampleImageBill (Some examplePayload)))))
     = [ReqRemove ''old.jpg'', ReqUpload ''c_7.jpg'']
   \<and> ''old.jpg'' \<notin> objects (fst (saveBillToSupabase (exampleBackend (UploadError ''quota'') None)
                        exampleRemote exampleImageBill (Some examplePayload)))
   \<and> base64ToBlob ''data:abc'' = None
   \<and> requests (fst (saveBillToSupabase (exampleBackend (UploadError ''quota'') None)
                        exampleRemote exampleImageBill (Some ''data:abc'')))
     = [ReqRemove ''old.jpg'']"
proof -
  let ?be = "exampleBackend (UploadError ''quota'') None"
  have h1: "connected exampleRemote" by code_simp
  have h2: "examplePayload \<noteq> []" "''data:abc'' \<noteq> []" by code_simp+
  have h3: "startsWith examplePayload ''data:''" "startsWith ''data:abc'' ''data:''"
    by code_simp+
  have h4: "includes_str (imageUrl exampleImageBill) bucketMarker" by code_simp
  have h5: "split_str (imageUrl exampleImageBill) bucketMarker
              = [''https://cdn.example/public'', ''old.jpg'']" by code_simp
  have h6: "decodeURIComponent ?be ''old.jpg'' = Some ''old.jpg''" by code_simp
  have h7: "''c_7.jpg'' = bill_id exampleImageBill @ ''_'' @ showInt (uploadNow ?be) @ ''.jpg''"
    by code_simp
  have b1: "base64ToBlob examplePayload \<noteq> None" by code_simp
  have b2: "base64ToBlob ''data:abc'' = None" by code_simp
  have r: "removeReply ?be ''old.jpg'' = RemoveOk" by code_simp
  have n: "''old.jpg'' \<noteq> ''c_7.jpg''" by simp
  have q: "requests exampleRemote = []" by code_simp
  note t1 = cleanup_precedes_upload [OF h1 h2(1) h3(1) h4 h5 h6 h7]
  note t2 = cleanup_precedes_upload [OF h1 h2(2) h3(2) h4 h5 h6 h7]
  have "take 2 (drop (length (requests exampleRemote))
      (requests (fst (saveBillToSupabase ?be exampleRemote exampleImageBill
                        (Some examplePayload)))))
     = [ReqRemove ''old.jpg'', ReqUpload ''c_7.jpg'']"
    using t1 b1 by blast
  moreover have "''old.jpg'' \<notin> objects (fst (saveBillToSupabase ?be exampleRemote
      exampleImageBill (Some examplePayload)))"
    using t1 r n by blast
  moreover have "requests (fst (saveBillToSupabase ?be exampleRemote exampleImageBill
      (Some ''data:abc''))) = requests exampleRemote @ [ReqRemove ''old.jpg'']"
    using t2 b2 by blast
  ultimately show ?thesis using b2 q by simp
qed

text \<open>
  The statement of claim C5 itself, that the prior image is never removed before the new
  upload has succeeded, fails. The bill has its image stored under \<open>old.jpg\<close>; the
  payload is a well-formed data URL, so that the conversion to a blob succeeds and the
  upload is requested; the backend refuses the upload. The persist throws the upload
  failure, and the prior image, in storage before, is gone after: its removal was the first
  request, the upload the second.
\<close>

theorem prior_image_removed_counterexample:
  "''old.jpg'' \<in> objects exampleRemote
   \<and> base64ToBlob examplePayload
       = Some [char_of (255 :: nat), char_of (216 :: nat), char_of (255 :: nat),
               char_of (224 :: nat), char_of (0 :: nat), char_of (16 :: nat)]
   \<and> snd (saveBillToSupabase (exampleBackend (UploadError ''quota'') None) exampleRemote
        exampleImageBill (Some examplePayload)) = Inl (ImageUploadFailed ''quota'')
   \<and> ''old.jpg'' \<notin> objects (fst (saveBillToSupabase (exampleBackend (UploadError ''quota'') None)
        exampleRemote exampleImageBill (Some examplePayload)))
   \<and> requests (fst (saveBillToSupabase (exampleBackend (UploadError ''quota'') None)
        exampleRemote exampleImageBill (Some examplePayload)))
      = [ReqRemove ''old.jpg'', ReqUpload ''c_7.jpg'']"
  by code_simp

text \<open>One call of \<open>deleteBillFromSupabase\<close> is a batch of one.\<close>

lemma deleteAll_single: "deleteAll be sb [i] = deleteBillFromSupabase be sb i"
  by (auto simp: deleteAll_def deleteBillFromSupabase_def startDelete_def deleteRecord_def
      Let_def issue_def split: option.splits RemoveReply.splits)

section \<open>The handlers on the local store\<close>

lemma allBills_handlePackSelected:
  "allBills (fst (handlePackSelected env be st sb)) =
     (if selectedIds st \<noteq> [] \<and> windowConfirm env
      then map (\<lambda>b. if bill_id b \<in> set (selectedIds st)
                     then b\<lparr>status := PACKED, packedAt := Some (dateNow env),
                            updatedAt := dateNow env\<rparr>
                     else b) (allBills st)
      else allBills st)"
  by (simp add: handlePackSelected_def Let_def split: prod.splits)

lemma allBills_applyGroupSettings:
  "allBills (fst (applyGroupSettings env be st sb)) =
     map (\<lambda>b. if bill_id b \<in> set (selectedIds st)
               then b\<lparr>description := groupNameInput st,
                      colorTheme := (if groupColorInput st \<noteq> []
                                     then Some (groupColorInput st) else None),
                      updatedAt := dateNow env\<rparr>
               else b) (allBills st)"
  by (simp add: applyGroupSettings_def Let_def split: prod.splits)

lemma allBills_handleDeleteSelected:
  "allBills (fst (handleDeleteSelected env be st sb)) =
     (if selectedIds st \<noteq> [] \<and> windowConfirm env
      then filter (\<lambda>b. bill_id b \<notin> set (selectedIds st)) (allBills st)
      else allBills st)"
  by (simp add: handleDeleteSelected_def Let_def)

lemma allBills_handleDeleteBill:
  "allBills (fst (handleDeleteBill env be st sb i)) =
     (if windowConfirm env then filter (\<lambda>b. bill_id b \<noteq> i) (allBills st) else allBills st)"
  by (simp add: handleDeleteBill_def)

lemma allBills_handleUpdateBill:
  "allBills (fst (handleUpdateBill be st sb u)) =
     map (\<lambda>b. if bill_id b = bill_id u then u else b) (allBills st)"
  by (simp add: handleUpdateBill_def)

lemma allBills_createBill:
  "allBills (fst (createBill env be st sb ex img md)) =
     (if isConfigured st
      then (case snd (saveBillToSupabase be sb (newBillOf env st ex img md) img) of
              Inr u \<Rightarrow> newBillOf env st ex img md # allBills st
            | Inl e \<Rightarrow> filter (\<lambda>b. bill_id b \<noteq> generateId env) (allBills st))
      else newBillOf env st ex img md # allBills st)"
  by (simp add: createBill_def Let_def newBillOf_def split: prod.splits sum.splits)

lemma count_transitions:
  assumes "\<forall>b \<in> set xs. P b \<longrightarrow> status b = PENDING"
  shows "length (filter (\<lambda>(b, a). status b = PENDING \<and> status a = PACKED)
           (zip xs (map (\<lambda>b. if P b then b\<lparr>status := PACKED, packedAt := t, updatedAt := u\<rparr> else b) xs)))
         = length (filter P xs)"
  using assms by (induction xs) auto

text \<open>
  With distinct ids in the store and a selection of distinct ids of the store, the selected
  bills are as many as the selected ids.
\<close>

lemma selected_count:
  assumes "distinct (map bill_id xs)" and "distinct sel" and "set sel \<subseteq> set (map bill_id xs)"
  shows "length (filter (\<lambda>b. bill_id b \<in> set sel) xs) = length sel"
proof -
  have "map bill_id (filter (\<lambda>b. bill_id b \<in> set sel) xs)
          = filter (\<lambda>i. i \<in> set sel) (map bill_id xs)"
    by (simp add: filter_map comp_def)
  moreover have "distinct (filter (\<lambda>i. i \<in> set sel) (map bill_id xs))"
    using assms(1) by simp
  moreover have "set (filter (\<lambda>i. i \<in> set sel) (map bill_id xs)) = set sel"
    using assms(3) by auto
  ultimately have "card (set sel) = length (filter (\<lambda>b. bill_id b \<in> set sel) xs)"
    by (metis distinct_card length_map)
  then show ?thesis using assms(2) by (simp add: distinct_card)
qed

text \<open>
  Claim C4. When the operator confirms the bulk pack and every selected bill is PENDING, the
  store keeps its length and order; every bill whose id is selected becomes that bill with
  status PACKED and with \<open>packedAt\<close> and \<open>updatedAt\<close> set to the one reading of the
  clock taken for the batch; every other bill is the bill it was, in every field; and the
  bills that went from PENDING to PACKED are as many as the selected bills. The answers of
  the backend do not enter.
\<close>

theorem handlePackSelected_exact:
  assumes "windowConfirm env"
    and "\<forall>b \<in> set (allBills st). bill_id b \<in> set (selectedIds st) \<longrightarrow> status b = PENDING"
  shows "length (allBills (fst (handlePackSelected env be st sb))) = length (allBills st)
    \<and> (\<forall>i < length (allBills st).
          (bill_id (allBills st ! i) \<in> set (selectedIds st) \<longrightarrow>
             allBills (fst (handlePackSelected env be st sb)) ! i =
               (allBills st ! i)\<lparr>status := PACKED, packedAt := Some (dateNow env),
                                  updatedAt := dateNow env\<rparr>)
        \<and> (bill_id (allBills st ! i) \<notin> set (selectedIds st) \<longrightarrow>
             allBills (fst (handlePackSelected env be st sb)) ! i = allBills st ! i))
    \<and> length (filter (\<lambda>(b, a). status b = PENDING \<and> status a = PACKED)
         (zip (allBills st) (allBills (fst (handlePackSelected env be st sb)))))
       = length (filter (\<lambda>b. bill_id b \<in> set (selectedIds st)) (allBills st))"
proof -
  let ?f = "\<lambda>b. if bill_id b \<in> set (selectedIds st)
                 then b\<lparr>status := PACKED, packedAt := Some (dateNow env),
                        updatedAt := dateNow env\<rparr>
                 else b"
  have eq: "allBills (fst (handlePackSelected env be st sb)) = map ?f (allBills st)"
  proof (cases "selectedIds st = []")
    case True
    then have "map ?f (allBills st) = allBills st" by simp
    with True show ?thesis by (simp add: allBills_handlePackSelected)
  next
    case False
    with assms(1) show ?thesis by (simp add: allBills_handlePackSelected)
  qed
  have "length (filter (\<lambda>(b, a). status b = PENDING \<and> status a = PACKED)
          (zip (allBills st) (map ?f (allBills st))))
        = length (filter (\<lambda>b. bill_id b \<in> set (selectedIds st)) (allBills st))"
    by (rule count_transitions) (rule assms(2))
  then show ?thesis unfolding eq by simp
qed

theorem handlePackSelected_exact_witness:
  "length (allBills (fst (handlePackSelected exampleEnv (exampleBackend (UploadError []) None)
                            exampleState exampleRemote))) = 5
   \<and> allBills (fst (handlePackSelected exampleEnv (exampleBackend (UploadError []) None)
                      exampleState exampleRemote)) ! 0
      = (exampleBill ''a'' ''INV-1'' ''2024-01-01'' PENDING 5 None)
          \<lparr>status := PACKED, packedAt := Some 200, updatedAt := 200\<rparr>
   \<and> allBills (fst (handlePackSelected exampleEnv (exampleBackend (UploadError []) None)
                      exampleState exampleRemote)) ! 2
      = exampleBill ''c'' ''INV-3'' ''2024-01-03'' PACKED 7 (Some 9)
   \<and> length (filter (\<lambda>(b, a). status b = PENDING \<and> status a = PACKED)
         (zip (allBills exampleState)
              (allBills (fst (handlePackSelected exampleEnv (exampleBackend (UploadError []) None)
                                exampleState exampleRemote))))) = 2"
proof -
  let ?be = "exampleBackend (UploadError []) None"
  have c: "windowConfirm exampleEnv" by code_simp
  have p: "\<forall>b \<in> set (allBills exampleState).
             bill_id b \<in> set (selectedIds exampleState) \<longrightarrow> status b = PENDING"
    by code_simp
  note t = handlePackSelected_exact [OF c p, of ?be exampleRemote]
  have l: "length (allBills exampleState) = 5" by code_simp
  have i0: "bill_id (allBills exampleState ! 0) \<in> set (selectedIds exampleState)" by code_simp
  have i2: "bill_id (allBills exampleState ! 2) \<notin> set (selectedIds exampleState)" by code_simp
  have b0: "allBills exampleState ! 0 = exampleBill ''a'' ''INV-1'' ''2024-01-01'' PENDING 5 None"
    by (simp add: exampleState_def exampleStore_def)
  have b2: "allBills exampleState ! 2 = exampleBill ''c'' ''INV-3'' ''2024-01-03'' PACKED 7 (Some 9)"
    by (simp add: exampleState_def exampleStore_def)
  have n: "dateNow exampleEnv = 200" by code_simp
  have k: "length (filter (\<lambda>b. bill_id b \<in> set (selectedIds exampleState))
                     (allBills exampleState)) = 2" by code_simp
  from t have "allBills (fst (handlePackSelected exampleEnv ?be exampleState exampleRemote)) ! 0
      = (allBills exampleState ! 0)\<lparr>status := PACKED, packedAt := Some (dateNow exampleEnv),
                                      updatedAt := dateNow exampleEnv\<rparr>"
    using l i0 by simp
  moreover from t have "allBills (fst (handlePackSelected exampleEnv ?be exampleState
      exampleRemote)) ! 2 = allBills exampleState ! 2"
    using l i2 by simp
  ultimately show ?thesis using t l k b0 b2 n by simp
qed

text \<open>
  Claim C10. Applying the group settings keeps the length and order of the store; a bill
  whose id is selected becomes that bill with \<open>description\<close>, \<open>colorTheme\<close> and
  \<open>updatedAt\<close> replaced and every other field as it was; with an empty colour input its
  \<open>colorTheme\<close> is absent afterwards, whatever it was before, so that its theme is the
  one resolved from the group name alone; and a bill whose id is not selected is the bill
  it was.
\<close>

theorem applyGroupSettings_frame:
  "length (allBills (fst (applyGroupSettings env be st sb))) = length (allBills st)
   \<and> (\<forall>i < length (allBills st).
         (bill_id (allBills st ! i) \<in> set (selectedIds st) \<longrightarrow>
            allBills (fst (applyGroupSettings env be st sb)) ! i =
              (allBills st ! i)\<lparr>description := groupNameInput st,
                                 colorTheme := (if groupColorInput st \<noteq> []
                                                then Some (groupColorInput st) else None),
                                 updatedAt := dateNow env\<rparr>
            \<and> (groupColorInput st = [] \<longrightarrow>
                 colorTheme (allBills (fst (applyGroupSettings env be st sb)) ! i) = None
                 \<and> getThemeStyles
                       (map_option units
                          (colorTheme (allBills (fst (applyGroupSettings env be st sb)) ! i)))
                       (Some (units
                          (description (allBills (fst (applyGroupSettings env be st sb)) ! i))))
                     = getThemeStyles None (Some (units (groupNameInput st)))))
       \<and> (bill_id (allBills st ! i) \<notin> set (selectedIds st) \<longrightarrow>
            allBills (fst (applyGroupSettings env be st sb)) ! i = allBills st ! i))"
  unfolding allBills_applyGroupSettings by simp

theorem applyGroupSettings_frame_witness:
  "colorTheme (allBills (exampleState\<lparr>allBills := [exampleImageBill\<lparr>colorTheme := Some ''red''\<rparr>,
                                                     exampleBill ''a'' ''INV-1'' ''2024-01-01''
                                                       PENDING 5 None],
                                        selectedIds := [''c'']\<rparr>) ! 0) = Some ''red''
   \<and> allBills (fst (applyGroupSettings exampleEnv (exampleBackend (UploadError []) None)
                      (exampleState\<lparr>allBills := [exampleImageBill\<lparr>colorTheme := Some ''red''\<rparr>,
                                                   exampleBill ''a'' ''INV-1'' ''2024-01-01''
                                                     PENDING 5 None],
                                      selectedIds := [''c'']\<rparr>) exampleRemote)) ! 0
      = exampleImageBill\<lparr>description := ''Route 7'', colorTheme := None, updatedAt := 200\<rparr>
   \<and> allBills (fst (applyGroupSettings exampleEnv (exampleBackend (UploadError []) None)
                      (exampleState\<lparr>allBills := [exampleImageBill\<lparr>colorTheme := Some ''red''\<rparr>,
                                                   exampleBill ''a'' ''INV-1'' ''2024-01-01''
                                                     PENDING 5 None],
                                      selectedIds := [''c'']\<rparr>) exampleRemote)) ! 1
      = exampleBill ''a'' ''INV-1'' ''2024-01-01'' PENDING 5 None"
proof -
  let ?be = "exampleBackend (UploadError []) None"
  let ?st = "exampleState\<lparr>allBills := [exampleImageBill\<lparr>colorTheme := Some ''red''\<rparr>,
                                         exampleBill ''a'' ''INV-1'' ''2024-01-01'' PENDING 5 None],
                            selectedIds := [''c'']\<rparr>"
  note t = applyGroupSettings_frame [of exampleEnv ?be ?st exampleRemote]
  have p0: "0 < length (allBills ?st)" and p1: "1 < length (allBills ?st)" by simp_all
  have i0: "bill_id (allBills ?st ! 0) \<in> set (selectedIds ?st)" by code_simp
  have i1: "bill_id (allBills ?st ! 1) \<notin> set (selectedIds ?st)" by code_simp
  have b0: "allBills ?st ! 0 = exampleImageBill\<lparr>colorTheme := Some ''red''\<rparr>"
    by simp
  have b1: "allBills ?st ! 1 = exampleBill ''a'' ''INV-1'' ''2024-01-01'' PENDING 5 None"
    by simp
  have g: "groupNameInput ?st = ''Route 7''" "groupColorInput ?st = []" "dateNow exampleEnv = 200"
    by code_simp+
  have "allBills (fst (applyGroupSettings exampleEnv ?be ?st exampleRemote)) ! 0
      = (allBills ?st ! 0)\<lparr>description := groupNameInput ?st,
            colorTheme := (if groupColorInput ?st \<noteq> [] then Some (groupColorInput ?st) else None),
            updatedAt := dateNow exampleEnv\<rparr>"
    by (rule t [THEN conjunct2, THEN spec, THEN mp, OF p0, THEN conjunct1, THEN mp, OF i0,
          THEN conjunct1])
  moreover have "allBills (fst (applyGroupSettings exampleEnv ?be ?st exampleRemote)) ! 1
      = allBills ?st ! 1"
    by (rule t [THEN conjunct2, THEN spec, THEN mp, OF p1, THEN conjunct2, THEN mp, OF i1])
  ultimately show ?thesis using b0 b1 g by simp
qed

text \<open>
  Claim C9. The edit puts the updated bill in the place of every stored bill with its id and
  leaves the other bills as they were; and the application state after the edit is the same
  for every backend and every remote state, so that it does not depend on whether the
  persist that the edit fires succeeds or throws.
\<close>

theorem handleUpdateBill_local:
  "fst (handleUpdateBill be1 st sb1 updated) = fst (handleUpdateBill be2 st sb2 updated)
   \<and> length (allBills (fst (handleUpdateBill be1 st sb1 updated))) = length (allBills st)
   \<and> (\<forall>i < length (allBills st).
         (bill_id (allBills st ! i) = bill_id updated \<longrightarrow>
            allBills (fst (handleUpdateBill be1 st sb1 updated)) ! i = updated)
       \<and> (bill_id (allBills st ! i) \<noteq> bill_id updated \<longrightarrow>
            allBills (fst (handleUpdateBill be1 st sb1 updated)) ! i = allBills st ! i))
   \<and> (\<forall>b \<in> set (allBills (fst (handleUpdateBill be1 st sb1 updated))).
         bill_id b = bill_id updated \<longrightarrow> b = updated)"
proof -
  have "fst (handleUpdateBill be1 st sb1 updated) = fst (handleUpdateBill be2 st sb2 updated)"
    by (simp add: handleUpdateBill_def)
  then show ?thesis
    unfolding allBills_handleUpdateBill by auto
qed

theorem handleUpdateBill_local_witness:
  "snd (saveBillToSupabase (exampleBackend (UploadError []) None) exampleRemote
          exampleImageBill None) = Inr ()
   \<and> snd (saveBillToSupabase (exampleBackend (UploadError []) (Some ''offline'')) exampleRemote
          exampleImageBill None) = Inl (DatabaseSaveFailed ''offline'')
   \<and> fst (handleUpdateBill (exampleBackend (UploadError []) None) exampleState exampleRemote
          exampleImageBill)
      = fst (handleUpdateBill (exampleBackend (UploadError []) (Some ''offline'')) exampleState
          exampleRemote exampleImageBill)
   \<and> allBills (fst (handleUpdateBill (exampleBackend (UploadError []) (Some ''offline''))
                      exampleState exampleRemote exampleImageBill)) ! 2 = exampleImageBill"
proof -
  let ?ok = "exampleBackend (UploadError []) None"
  let ?ko = "exampleBackend (UploadError []) (Some ''offline'')"
  note t = handleUpdateBill_local [of ?ko exampleState exampleRemote exampleImageBill ?ok exampleRemote]
  have s1: "snd (saveBillToSupabase ?ok exampleRemote exampleImageBill None) = Inr ()"
    by code_simp
  have s2: "snd (saveBillToSupabase ?ko exampleRemote exampleImageBill None)
              = Inl (DatabaseSaveFailed ''offline'')"
    by code_simp
  have l: "length (allBills exampleState) = 5" by code_simp
  have i2: "bill_id (allBills exampleState ! 2) = bill_id exampleImageBill" by code_simp
  have "allBills (fst (handleUpdateBill ?ko exampleState exampleRemote exampleImageBill)) ! 2
      = exampleImageBill"
    using t [THEN conjunct2, THEN conjunct2, THEN conjunct1, rule_format, of 2] l i2
    by simp
  moreover have "fst (handleUpdateBill ?ok exampleState exampleRemote exampleImageBill)
      = fst (handleUpdateBill ?ko exampleState exampleRemote exampleImageBill)"
    using t [THEN conjunct1] by simp
  ultimately show ?thesis using s1 s2 by blast
qed

section \<open>Creation\<close>

lemma filter_fresh: "k \<notin> set (map f xs) \<Longrightarrow> filter (\<lambda>b. f b \<noteq> k) xs = xs"
  by (induction xs) auto

text \<open>
  Claim C1. With a remote backend configured, when the persist of the new bill throws, the
  store after \<open>createBill\<close> is the store before it: the same bills in the same order,
  hence the same count and the same members. The identifier that \<open>generateId\<close> draws for
  the new bill is taken to be fresh, that is the id of no stored bill, as the record model
  requires of ids.
\<close>

theorem createBill_rollback:
  assumes "isConfigured st"
    and "snd (saveBillToSupabase be sb (newBillOf env st ex img md) img) = Inl e"
    and "generateId env \<notin> set (map bill_id (allBills st))"
  shows "allBills (fst (createBill env be st sb ex img md)) = allBills st
    \<and> length (allBills (fst (createBill env be st sb ex img md))) = length (allBills st)
    \<and> set (allBills (fst (createBill env be st sb ex img md))) = set (allBills st)"
  using assms by (simp add: allBills_createBill filter_fresh)

theorem createBill_rollback_witness:
  "snd (saveBillToSupabase (exampleBackend (UploadData (Some ''n1_7.jpg'')) (Some ''boom''))
          exampleRemote
          (newBillOf exampleEnv exampleState
             \<lparr>x_customerName = ''Grace'', x_address = [], x_invoiceNo = ''INV-9'',
               x_billDate = []\<rparr> (Some examplePayload) None)
          (Some examplePayload)) = Inl (DatabaseSaveFailed ''boom'')
   \<and> allBills (fst (createBill exampleEnv
                      (exampleBackend (UploadData (Some ''n1_7.jpg'')) (Some ''boom''))
                      exampleState exampleRemote
                      \<lparr>x_customerName = ''Grace'', x_address = [], x_invoiceNo = ''INV-9'',
                        x_billDate = []\<rparr> (Some examplePayload) None)) = exampleStore"
proof -
  let ?be = "exampleBackend (UploadData (Some ''n1_7.jpg'')) (Some ''boom'')"
  let ?ex = "\<lparr>x_customerName = ''Grace'', x_address = [], x_invoiceNo = ''INV-9'',
               x_billDate = []\<rparr>"
  have h1: "isConfigured exampleState" by code_simp
  have h2: "snd (saveBillToSupabase ?be exampleRemote
                  (newBillOf exampleEnv exampleState ?ex (Some examplePayload) None)
                  (Some examplePayload)) = Inl (DatabaseSaveFailed ''boom'')"
    by code_simp
  have h3: "generateId exampleEnv \<notin> set (map bill_id (allBills exampleState))" by code_simp
  have s: "allBills exampleState = exampleStore" by (simp add: exampleState_def)
  show ?thesis
    using createBill_rollback [OF h1 h2 h3] h2 s by simp
qed

section \<open>Duplicate detection\<close>

lemma toLowerCase_Nil: "toLowerCase (trim []) = []"
  by (simp add: toLowerCase_def trim_def)

lemma findDuplicate_eq:
  "findDuplicate bills candidate =
     (if toLowerCase (trim candidate) = [] then None
      else find (\<lambda>b. toLowerCase (trim (invoiceNo b)) = toLowerCase (trim candidate)) bills)"
proof (cases "toLowerCase (trim candidate) = []")
  case True
  then show ?thesis by (simp add: findDuplicate_def Let_def)
next
  case False
  then have ne: "candidate \<noteq> []" using toLowerCase_Nil by auto
  have p: "\<And>b. (invoiceNo b \<noteq> []
                 \<and> toLowerCase (trim (invoiceNo b)) = toLowerCase (trim candidate))
             = (toLowerCase (trim (invoiceNo b)) = toLowerCase (trim candidate))"
    using False toLowerCase_Nil by auto
  from False ne show ?thesis by (simp add: findDuplicate_def Let_def p)
qed

lemma find_first:
  assumes "\<exists>b \<in> set xs. P b"
  shows "\<exists>i < length xs. find P xs = Some (xs ! i) \<and> P (xs ! i) \<and> (\<forall>j < i. \<not> P (xs ! j))"
proof -
  from assms obtain x where "find P xs = Some x"
    by (cases "find P xs") (auto simp: find_None_iff)
  then show ?thesis by (auto simp: find_Some_iff)
qed

lemma fst_finishAdd: "allBills (fst (finishAdd st0 r)) = allBills (fst r)"
  by (cases r) (simp add: finishAdd_def)

lemma snd_finishAdd: "snd (finishAdd st0 r) = snd r"
  by (cases r) (simp add: finishAdd_def)

lemma alert_finishAdd: "duplicateAlert (fst (finishAdd st0 r)) = duplicateAlert (fst r)"
  by (cases r) (simp add: finishAdd_def)

lemma handleAddBill_duplicate:
  assumes "readAsDataURL co f = Some raw"
    and "extractBillDetails co (compressImage co raw) = Some ex"
    and "findDuplicate (allBills st) (x_invoiceNo ex) = Some dup"
  shows "allBills (fst (handleAddBill co env be st sb (Some f))) = allBills st"
    and "snd (handleAddBill co env be st sb (Some f)) = sb"
    and "duplicateAlert (fst (handleAddBill co env be st sb (Some f)))
           = Some \<lparr>existing = dup, newData = ex, base64 = Some (compressImage co raw)\<rparr>"
  using assms
  by (simp_all add: handleAddBill_def Let_def fst_finishAdd snd_finishAdd alert_finishAdd)

text \<open>
  Claim C2. The duplicate check compares invoice numbers after \<open>trim\<close> and
  \<open>toLowerCase\<close>. A candidate that is empty after that finds nothing. A candidate that
  is not, and that some stored bill equals after that, finds the first such bill of the
  store: no bill before it in the list equals the candidate. And when the check of
  \<open>handleAddBill\<close> finds a bill, the handler ends with the store and the remote side as
  they were (no bill is added, no request is issued) and with the alert that holds the
  bill found, the extracted fields and the image.
\<close>

theorem duplicate_detection:
  "(toLowerCase (trim candidate) = [] \<longrightarrow> findDuplicate bills candidate = None)
   \<and> (toLowerCase (trim candidate) \<noteq> []
        \<and> (\<exists>b \<in> set bills. toLowerCase (trim (invoiceNo b)) = toLowerCase (trim candidate))
      \<longrightarrow> (\<exists>i < length bills.
             findDuplicate bills candidate = Some (bills ! i)
             \<and> toLowerCase (trim (invoiceNo (bills ! i))) = toLowerCase (trim candidate)
             \<and> (\<forall>j < i. toLowerCase (trim (invoiceNo (bills ! j)))
                          \<noteq> toLowerCase (trim candidate))))
   \<and> (readAsDataURL co f = Some raw
        \<and> extractBillDetails co (compressImage co raw) = Some ex
        \<and> findDuplicate (allBills st) (x_invoiceNo ex) = Some dup
      \<longrightarrow> allBills (fst (handleAddBill co env be st sb (Some f))) = allBills st
          \<and> snd (handleAddBill co env be st sb (Some f)) = sb
          \<and> duplicateAlert (fst (handleAddBill co env be st sb (Some f)))
              = Some \<lparr>existing = dup, newData = ex, base64 = Some (compressImage co raw)\<rparr>)"
proof (intro conjI impI)
  assume "toLowerCase (trim candidate) = []"
  then show "findDuplicate bills candidate = None" by (simp add: findDuplicate_eq)
next
  assume a: "toLowerCase (trim candidate) \<noteq> []
        \<and> (\<exists>b \<in> set bills. toLowerCase (trim (invoiceNo b)) = toLowerCase (trim candidate))"
  then show "\<exists>i < length bills.
             findDuplicate bills candidate = Some (bills ! i)
             \<and> toLowerCase (trim (invoiceNo (bills ! i))) = toLowerCase (trim candidate)
             \<and> (\<forall>j < i. toLowerCase (trim (invoiceNo (bills ! j)))
                          \<noteq> toLowerCase (trim candidate))"
    using find_first [of bills "\<lambda>b. toLowerCase (trim (invoiceNo b)) = toLowerCase (trim candidate)"]
    by (simp add: findDuplicate_eq)
next
  assume a: "readAsDataURL co f = Some raw
        \<and> extractBillDetails co (compressImage co raw) = Some ex
        \<and> findDuplicate (allBills st) (x_invoiceNo ex) = Some dup"
  show "allBills (fst (handleAddBill co env be st sb (Some f))) = allBills st"
    using a handleAddBill_duplicate(1) by blast
  show "snd (handleAddBill co env be st sb (Some f)) = sb"
    using a handleAddBill_duplicate(2) by blast
  show "duplicateAlert (fst (handleAddBill co env be st sb (Some f)))
              = Some \<lparr>existing = dup, newData = ex, base64 = Some (compressImage co raw)\<rparr>"
    using a handleAddBill_duplicate(3) by blast
qed

theorem duplicate_detection_witness:
  "findDuplicate duplicateStore ''   '' = None
   \<and> findDuplicate duplicateStore ''inv-001''
       = Some (exampleBill ''b'' ''INV-001 '' ''2024-01-02'' PENDING 6 None)
   \<and> allBills (fst (handleAddBill (exampleCollaborators ''inv-001'') exampleEnv
                      (exampleBackend (UploadError []) None)
                      (exampleState\<lparr>allBills := duplicateStore\<rparr>) exampleRemote (Some ''/9j/4AAQ'')))
       = duplicateStore
   \<and> snd (handleAddBill (exampleCollaborators ''inv-001'') exampleEnv
             (exampleBackend (UploadError []) None)
             (exampleState\<lparr>allBills := duplicateStore\<rparr>) exampleRemote (Some ''/9j/4AAQ''))
       = exampleRemote
   \<and> duplicateAlert (fst (handleAddBill (exampleCollaborators ''inv-001'') exampleEnv
                      (exampleBackend (UploadError []) None)
                      (exampleState\<lparr>allBills := duplicateStore\<rparr>) exampleRemote (Some ''/9j/4AAQ'')))
       = Some \<lparr>existing = exampleBill ''b'' ''INV-001 '' ''2024-01-02'' PENDING 6 None,
               newData = \<lparr>x_customerName = ''Grace'', x_address = [], x_invoiceNo = ''inv-001'',
                           x_billDate = ''2024-01-03''\<rparr>,
               base64 = Some ''data:image/jpeg;base64,/9j/4AAQ''\<rparr>"
proof -
  let ?co = "exampleCollaborators ''inv-001''"
  let ?be = "exampleBackend (UploadError []) None"
  let ?st = "exampleState\<lparr>allBills := duplicateStore\<rparr>"
  let ?ex = "\<lparr>x_customerName = ''Grace'', x_address = [], x_invoiceNo = ''inv-001'',
               x_billDate = ''2024-01-03''\<rparr>"
  let ?b = "exampleBill ''b'' ''INV-001 '' ''2024-01-02'' PENDING 6 None"
  have e: "toLowerCase (trim ''   '') = []" by code_simp
  have h1: "readAsDataURL ?co ''/9j/4AAQ'' = Some ''data:image/jpeg;base64,/9j/4AAQ''" by code_simp
  have h2: "extractBillDetails ?co (compressImage ?co ''data:image/jpeg;base64,/9j/4AAQ'') = Some ?ex"
    by code_simp
  have d: "findDuplicate duplicateStore ''inv-001'' = Some ?b" by code_simp
  have h3: "findDuplicate (allBills ?st) (x_invoiceNo ?ex) = Some ?b"
    using d by simp
  have c: "compressImage ?co ''data:image/jpeg;base64,/9j/4AAQ'' = ''data:image/jpeg;base64,/9j/4AAQ''"
    by code_simp
  have s: "allBills ?st = duplicateStore" by simp
  note t = duplicate_detection [of "''   ''" duplicateStore ?co "''/9j/4AAQ''"
      "''data:image/jpeg;base64,/9j/4AAQ''" ?ex ?st ?b exampleEnv ?be exampleRemote]
  have "findDuplicate duplicateStore ''   '' = None"
    using t [THEN conjunct1] e by blast
  moreover have "allBills (fst (handleAddBill ?co exampleEnv ?be ?st exampleRemote (Some ''/9j/4AAQ'')))
        = allBills ?st
      \<and> snd (handleAddBill ?co exampleEnv ?be ?st exampleRemote (Some ''/9j/4AAQ'')) = exampleRemote
      \<and> duplicateAlert (fst (handleAddBill ?co exampleEnv ?be ?st exampleRemote (Some ''/9j/4AAQ'')))
          = Some \<lparr>existing = ?b, newData = ?ex,
                  base64 = Some (compressImage ?co ''data:image/jpeg;base64,/9j/4AAQ'')\<rparr>"
    using t [THEN conjunct2, THEN conjunct2] h1 h2 h3 by blast
  ultimately show ?thesis using d c s by simp
qed

section \<open>The invariant on status and packedAt\<close>

lemma billInvariant_newBillOf: "billInvariant (newBillOf env st ex img md)"
  by (simp add: billInvariant_def newBillOf_def)

lemma billInvariant_retag:
  "billInvariant (b\<lparr>description := d, colorTheme := c, updatedAt := u\<rparr>) = billInvariant b"
  by (simp add: billInvariant_def split: PackingStatus.splits)

lemma billInvariant_pack:
  "billInvariant (b\<lparr>status := PACKED, packedAt := Some t, updatedAt := u\<rparr>)"
  by (simp add: billInvariant_def)

lemma set_createBill:
  "set (allBills (fst (createBill env be st sb ex img md)))
     \<subseteq> insert (newBillOf env st ex img md) (set (allBills st))"
  by (auto simp: allBills_createBill split: sum.splits)

lemma list_all_subset: "set ys \<subseteq> insert x (set xs) \<Longrightarrow> P x \<Longrightarrow> list_all P xs \<Longrightarrow> list_all P ys"
  by (auto simp: list_all_iff)

lemma inv_createBill:
  assumes "list_all billInvariant (allBills st)"
  shows "list_all billInvariant (allBills (fst (createBill env be st sb ex img md)))"
  using list_all_subset [OF set_createBill billInvariant_newBillOf assms] .

lemma inv_handleAddBill:
  assumes "list_all billInvariant (allBills st)"
  shows "list_all billInvariant (allBills (fst (handleAddBill co env be st sb file)))"
  using assms
  by (auto simp: handleAddBill_def Let_def fst_finishAdd intro!: inv_createBill
      split: option.splits)

lemma inv_handleManualQuickAdd:
  assumes "list_all billInvariant (allBills st)"
  shows "list_all billInvariant
           (allBills (fst (handleManualQuickAdd env be st sb custName invNo boxes descr)))"
proof -
  let ?st = "st\<lparr>loadingId := Some ''new'', processStatus := ''Quick add...''\<rparr>"
  let ?r = "createBill env be ?st sb
              \<lparr>x_customerName = custName, x_address = [], x_invoiceNo = invNo,
                x_billDate = currentDate st\<rparr>
              None (Some \<lparr>m_boxCount = boxes, m_description = descr\<rparr>)"
  have "list_all billInvariant (allBills (fst ?r))"
    by (rule inv_createBill) (use assms in simp)
  moreover have "allBills (fst (handleManualQuickAdd env be st sb custName invNo boxes descr))
      = allBills (fst ?r)"
    by (cases ?r) (simp add: handleManualQuickAdd_def)
  ultimately show ?thesis by simp
qed

lemma inv_handleConfirmDuplicate:
  assumes "list_all billInvariant (allBills st)"
  shows "list_all billInvariant (allBills (fst (handleConfirmDuplicate env be st sb)))"
proof (cases "duplicateAlert st")
  case None
  then show ?thesis using assms by (simp add: handleConfirmDuplicate_def)
next
  case (Some alert)
  let ?st = "st\<lparr>duplicateAlert := None, loadingId := Some ''new_dup'',
                  processStatus := ''Creating duplicate entry...''\<rparr>"
  let ?r = "createBill env be ?st sb (newData alert) (base64 alert) None"
  have "list_all billInvariant (allBills (fst ?r))"
    by (rule inv_createBill) (use assms in simp)
  moreover have "allBills (fst (handleConfirmDuplicate env be st sb)) = allBills (fst ?r)"
    using Some by (cases ?r) (simp add: handleConfirmDuplicate_def)
  ultimately show ?thesis by simp
qed

lemma inv_handlePackSelected:
  assumes "list_all billInvariant (allBills st)"
  shows "list_all billInvariant (allBills (fst (handlePackSelected env be st sb)))"
  using assms
  by (auto simp: allBills_handlePackSelected list_all_iff billInvariant_pack)

lemma inv_applyGroupSettings:
  assumes "list_all billInvariant (allBills st)"
  shows "list_all billInvariant (allBills (fst (applyGroupSettings env be st sb)))"
  using assms
  by (auto simp: allBills_applyGroupSettings list_all_iff billInvariant_retag)

lemma inv_handleDeleteSelected:
  assumes "list_all billInvariant (allBills st)"
  shows "list_all billInvariant (allBills (fst (handleDeleteSelected env be st sb)))"
  using assms
  by (auto simp: allBills_handleDeleteSelected list_all_iff)

lemma inv_handleDeleteBill:
  assumes "list_all billInvariant (allBills st)"
  shows "list_all billInvariant (allBills (fst (handleDeleteBill env be st sb i)))"
  using assms
  by (auto simp: allBills_handleDeleteBill list_all_iff)

lemma inv_handleUpdateBill:
  assumes "list_all billInvariant (allBills st)" and "billInvariant updated"
  shows "list_all billInvariant (allBills (fst (handleUpdateBill be st sb updated)))"
  using assms
  by (auto simp: allBills_handleUpdateBill list_all_iff)

lemma pack_stamps:
  assumes "selectedIds st \<noteq> []" and "windowConfirm env"
    and "b \<in> set (allBills (fst (handlePackSelected env be st sb)))"
    and "bill_id b \<in> set (selectedIds st)"
  shows "status b = PACKED \<and> packedAt b = Some (dateNow env)"
  using assms by (auto simp: allBills_handlePackSelected split: if_splits)

lemma retag_keeps_stamps:
  "map packedAt (allBills (fst (applyGroupSettings env be st sb))) = map packedAt (allBills st)"
  "map status (allBills (fst (applyGroupSettings env be st sb))) = map status (allBills st)"
  by (simp_all add: allBills_applyGroupSettings)

lemma delete_subset:
  "set (allBills (fst (handleDeleteSelected env be st sb))) \<subseteq> set (allBills st)"
  "set (allBills (fst (handleDeleteBill env be st sb i))) \<subseteq> set (allBills st)"
  by (auto simp: allBills_handleDeleteSelected allBills_handleDeleteBill)

text \<open>
  Claim C7, as amended. The invariant (a PACKED bill has \<open>packedAt\<close>, a PENDING bill has
  none) holds of every bill of the store after creation (\<open>createBill\<close> and the three
  handlers that end in it), after the bulk pack, the group re-tag and both deletes, when
  it held before; after an edit it holds when it held before and holds of the bill that the
  edit stores. The bulk pack sets status PACKED and \<open>packedAt\<close> to the reading of the
  clock of the batch on every bill whose id is selected, whatever the status of that bill
  was. Creation adds at most the new bill, which is PENDING without \<open>packedAt\<close>, and
  keeps no bill that was not there; the re-tag keeps status and \<open>packedAt\<close> of every bill;
  a delete only removes bills.
\<close>

theorem invariant_preserved:
  assumes "list_all billInvariant (allBills st)"
  shows "list_all billInvariant (allBills (fst (createBill env be st sb ex img md)))
   \<and> list_all billInvariant (allBills (fst (handleAddBill co env be st sb file)))
   \<and> list_all billInvariant
        (allBills (fst (handleManualQuickAdd env be st sb custName invNo boxes descr)))
   \<and> list_all billInvariant (allBills (fst (handleConfirmDuplicate env be st sb)))
   \<and> list_all billInvariant (allBills (fst (handlePackSelected env be st sb)))
   \<and> list_all billInvariant (allBills (fst (applyGroupSettings env be st sb)))
   \<and> list_all billInvariant (allBills (fst (handleDeleteSelected env be st sb)))
   \<and> list_all billInvariant (allBills (fst (handleDeleteBill env be st sb i)))
   \<and> (billInvariant updated \<longrightarrow>
        list_all billInvariant (allBills (fst (handleUpdateBill be st sb updated))))
   \<and> (\<forall>b \<in> set (allBills (fst (handlePackSelected env be st sb))).
        selectedIds st \<noteq> [] \<and> windowConfirm env \<and> bill_id b \<in> set (selectedIds st) \<longrightarrow>
        status b = PACKED \<and> packedAt b = Some (dateNow env))
   \<and> set (allBills (fst (createBill env be st sb ex img md)))
        \<subseteq> insert (newBillOf env st ex img md) (set (allBills st))
   \<and> status (newBillOf env st ex img md) = PENDING
   \<and> packedAt (newBillOf env st ex img md) = None
   \<and> map packedAt (allBills (fst (applyGroupSettings env be st sb))) = map packedAt (allBills st)
   \<and> map status (allBills (fst (applyGroupSettings env be st sb))) = map status (allBills st)
   \<and> set (allBills (fst (handleDeleteSelected env be st sb))) \<subseteq> set (allBills st)
   \<and> set (allBills (fst (handleDeleteBill env be st sb i))) \<subseteq> set (allBills st)"
proof -
  have n: "status (newBillOf env st ex img md) = PENDING"
    "packedAt (newBillOf env st ex img md) = None"
    by (simp_all add: newBillOf_def)
  have p: "\<forall>b \<in> set (allBills (fst (handlePackSelected env be st sb))).
        selectedIds st \<noteq> [] \<and> windowConfirm env \<and> bill_id b \<in> set (selectedIds st) \<longrightarrow>
        status b = PACKED \<and> packedAt b = Some (dateNow env)"
    using pack_stamps by blast
  have u: "billInvariant updated \<longrightarrow>
        list_all billInvariant (allBills (fst (handleUpdateBill be st sb updated)))"
    using inv_handleUpdateBill [OF assms] by blast
  show ?thesis
    by (intro conjI inv_createBill inv_handleAddBill inv_handleManualQuickAdd
        inv_handleConfirmDuplicate inv_handlePackSelected inv_applyGroupSettings
        inv_handleDeleteSelected inv_handleDeleteBill u p set_createBill n
        retag_keeps_stamps delete_subset assms)
qed

theorem invariant_preserved_witness:
  "list_all billInvariant (allBills exampleState)
   \<and> list_all billInvariant
       (allBills (fst (handlePackSelected exampleEnv (exampleBackend (UploadError []) None)
                         exampleState exampleRemote)))
   \<and> list_all billInvariant
       (allBills (fst (handleUpdateBill (exampleBackend (UploadError []) None)
                         exampleState exampleRemote exampleImageBill)))
   \<and> list_all billInvariant
       (allBills (fst (createBill exampleEnv (exampleBackend (UploadError []) None)
                         exampleState exampleRemote
                         \<lparr>x_customerName = ''Grace'', x_address = [], x_invoiceNo = ''INV-9'',
                           x_billDate = []\<rparr> None None)))"
proof -
  have h: "list_all billInvariant (allBills exampleState)" by code_simp
  have u: "billInvariant exampleImageBill" by code_simp
  note t = invariant_preserved [OF h, of exampleEnv "exampleBackend (UploadError []) None"
      exampleRemote "\<lparr>x_customerName = ''Grace'', x_address = [], x_invoiceNo = ''INV-9'',
                           x_billDate = []\<rparr>" None None _ _ _ _ _ _ _ exampleImageBill]
  show ?thesis using t h u by blast
qed

text \<open>
  The statement of claim C7 itself fails in its last part: \<open>packedAt\<close> is not set once.
  The store of the example satisfies the invariant and its third bill is PACKED since 9;
  the bulk pack with that bill selected, at time 200, restamps it with 200. And an edit
  that hands over a PACKED bill without \<open>packedAt\<close> leaves a store that breaks the
  invariant.
\<close>

theorem packedAt_overwritten_counterexample:
  "list_all billInvariant (allBills exampleState)
   \<and> status (allBills exampleState ! 2) = PACKED
   \<and> packedAt (allBills exampleState ! 2) = Some 9
   \<and> bill_id (allBills exampleState ! 2) = ''c''
   \<and> packedAt (allBills (fst (handlePackSelected exampleEnv
                                 (exampleBackend (UploadError []) None)
                                 (exampleState\<lparr>selectedIds := [''c'']\<rparr>) exampleRemote)) ! 2)
       = Some 200
   \<and> \<not> list_all billInvariant
         (allBills (fst (handleUpdateBill (exampleBackend (UploadError []) None) exampleState
                           exampleRemote (exampleImageBill\<lparr>packedAt := None\<rparr>))))"
  by code_simp

end
